theory Spec2Isabelle
  imports Main
begin

section \<open>Data model of ConsoleUI\<close>

text \<open>
  The development embeds \<^verbatim>\<open>src/src/ConsoleUI.cpp\<close>. The C++ \<^verbatim>\<open>int\<close> members are
  modelled as \<^typ>\<open>int\<close>. The arithmetic of the page keys on the scroll offset is
  stated for every offset an \<^verbatim>\<open>int\<close> can hold and has the 32-bit wrap-around written
  out (\<open>int32\<close> below); the other expressions combine terminal dimensions, a cursor
  inside the input line, an index into History and a buffer size of at most 1001.
\<close>

datatype ResizeError = TERMINAL_TOO_SMALL

datatype InitError =
    NCURSES_INIT_FAILED
  | COLOR_SUPPORT_MISSING
  | CANNOT_CHANGE_COLOR
  | WINDOW_SETUP_FAILED
  | INIT_TERMINAL_TOO_SMALL

text \<open>
  \<^verbatim>\<open>std::expected<void, ResizeError>\<close>: \<open>Inr ()\<close> holds a value (layout Ready),
  \<open>Inl e\<close> is the unexpected case (layout TooSmall).
\<close>

type_synonym resize_status = "ResizeError + unit"

definition has_value :: "resize_status \<Rightarrow> bool" where
  "has_value r = (case r of Inl _ \<Rightarrow> False | Inr _ \<Rightarrow> True)"

text \<open>
  A curses window, as far as the program reads it: \<^verbatim>\<open>getmaxyx\<close> yields \<open>maxy\<close> and
  \<open>maxx\<close>. A \<^verbatim>\<open>unique_ptr<WINDOW>\<close> is a \<open>WINDOW option\<close>, \<open>None\<close> the null pointer.
  The library call \<^verbatim>\<open>newwin(nlines, ncols, begin_y, begin_x)\<close> is a parameter of the
  model; it answers \<open>None\<close> when the allocation fails.
\<close>

record WINDOW =
  maxy :: int
  maxx :: int
  begy :: int
  begx :: int

type_synonym newwin_fn = "int \<Rightarrow> int \<Rightarrow> int \<Rightarrow> int \<Rightarrow> WINDOW option"

text \<open>
  The result of \<^verbatim>\<open>wgetch\<close>. The key macros of the curses header are kept symbolic;
  \<open>Code c\<close> is every other return value \<open>c\<close> (a character code or a key the program does
  not name).
\<close>

datatype key =
    ERR
  | KEY_RESIZE
  | KEY_BACKSPACE
  | KEY_DC
  | KEY_LEFT
  | KEY_RIGHT
  | KEY_HOME
  | KEY_END
  | KEY_UP
  | KEY_DOWN
  | KEY_ENTER
  | KEY_PPAGE
  | KEY_NPAGE
  | Code int

text \<open>
  What the C++ does outside the range of a container: \<^verbatim>\<open>std::string::erase\<close> and
  \<^verbatim>\<open>insert\<close> throw \<^verbatim>\<open>std::out_of_range\<close>; \<^verbatim>\<open>vector::operator[]\<close> is undefined.
\<close>

datatype error = std_out_of_range | index_out_of_bounds

record ConsoleUI =
  m_outputWin :: "WINDOW option"
  m_outputBorderWin :: "WINDOW option"
  m_inputWin :: "WINDOW option"
  m_inputBorderWin :: "WINDOW option"
  m_termHeight :: int
  m_termWidth :: int
  m_outputHeight :: int
  m_inputHeight :: int
  m_outputBuffer :: "string list"
  m_scrollOffset :: int
  m_inputBuffer :: string
  m_cursorPos :: int
  m_commandHistory :: "string list"
  m_historyIndex :: int
  m_isRunning :: bool
  m_resizeStatus :: resize_status

text \<open>The two \<^verbatim>\<open>const int\<close> members and the constant of \<^verbatim>\<open>addOutputMessage\<close>.\<close>

definition m_minHeight :: int where
  "m_minHeight = 10"

definition m_minWidth :: int where
  "m_minWidth = 40"

definition MAX_BUFFER_SIZE :: nat where
  "MAX_BUFFER_SIZE = 1000"

text \<open>
  The constructor \<^verbatim>\<open>ConsoleUI(termHeight, termWidth)\<close> with the default member
  initialisers of the header. The declarations of \<^verbatim>\<open>m_inputBuffer\<close>, \<^verbatim>\<open>m_cursorPos\<close>,
  \<^verbatim>\<open>m_commandHistory\<close> and \<^verbatim>\<open>m_historyIndex\<close> are not in the header at hand; they
  start as the values the program resets them to (empty, 0, empty, -1).
\<close>

definition ConsoleUI_ctor :: "int \<Rightarrow> int \<Rightarrow> ConsoleUI" where
  "ConsoleUI_ctor termHeight termWidth =
     \<lparr> m_outputWin = None, m_outputBorderWin = None,
       m_inputWin = None, m_inputBorderWin = None,
       m_termHeight = termHeight, m_termWidth = termWidth,
       m_outputHeight = 20, m_inputHeight = 3,
       m_outputBuffer = [], m_scrollOffset = 0,
       m_inputBuffer = [], m_cursorPos = 0,
       m_commandHistory = [], m_historyIndex = -1,
       m_isRunning = False, m_resizeStatus = Inr () \<rparr>"

section \<open>Output scrollback\<close>

definition addOutputMessage :: "string \<Rightarrow> ConsoleUI \<Rightarrow> ConsoleUI" where
  "addOutputMessage message st =
     (let buf = m_outputBuffer st @ [message]
      in st\<lparr> m_outputBuffer :=
               (if length buf > MAX_BUFFER_SIZE
                then drop (length buf - MAX_BUFFER_SIZE) buf
                else buf) \<rparr>)"

text \<open>A sequence of appends, oldest first.\<close>

fun addOutputMessages :: "string list \<Rightarrow> ConsoleUI \<Rightarrow> ConsoleUI" where
  "addOutputMessages [] st = st"
| "addOutputMessages (m # ms) st = addOutputMessages ms (addOutputMessage m st)"

section \<open>Drawing the visible slice\<close>

text \<open>
  \<^verbatim>\<open>m_outputBuffer[i]\<close> and \<^verbatim>\<open>m_commandHistory[i]\<close>: defined inside the vector only.
\<close>

definition vec_at :: "'a list \<Rightarrow> int \<Rightarrow> error + 'a" where
  "vec_at xs i =
     (if 0 \<le> i \<and> i < int (length xs) then Inr (xs ! nat i) else Inl index_out_of_bounds)"

text \<open>
  One call \<^verbatim>\<open>mvwaddnstr(win, y, x, str, n)\<close>: it writes at most \<open>n\<close> characters of
  \<open>str\<close> at row \<open>y\<close>, column \<open>x\<close> of the window.
\<close>

datatype draw_op = Mvwaddnstr int int string int

text \<open>The \<^verbatim>\<open>for\<close> loop of \<^verbatim>\<open>drawOutputWindow\<close>, from index \<open>i\<close> on.\<close>

function drawOutputLoop ::
  "string list \<Rightarrow> int \<Rightarrow> int \<Rightarrow> int \<Rightarrow> int \<Rightarrow> int \<Rightarrow> error + draw_op list" where
  "drawOutputLoop buf winHeight winWidth firstLineIdx lastLineIdx i =
     (if i < lastLineIdx then
        (let screenY = i - firstLineIdx in
         if screenY \<ge> winHeight then Inr []
         else (case vec_at buf i of
                 Inl e \<Rightarrow> Inl e
               | Inr line \<Rightarrow>
                   (case drawOutputLoop buf winHeight winWidth firstLineIdx lastLineIdx (i + 1) of
                      Inl e \<Rightarrow> Inl e
                    | Inr rest \<Rightarrow> Inr (Mvwaddnstr screenY 0 line winWidth # rest))))
      else Inr [])"
  by pat_completeness auto
termination
  by (relation "measure (\<lambda>(buf, winHeight, winWidth, firstLineIdx, lastLineIdx, i).
                  nat (lastLineIdx - i))") auto

declare drawOutputLoop.simps [simp del]

definition drawOutputWindow :: "ConsoleUI \<Rightarrow> error + draw_op list" where
  "drawOutputWindow st =
     (case m_outputWin st of
        None \<Rightarrow> Inr []
      | Some win \<Rightarrow>
          (let winHeight = maxy win; winWidth = maxx win in
           if winHeight \<le> 0 \<or> winWidth \<le> 0 then Inr []
           else
             (let bufferSize = int (length (m_outputBuffer st));
                  firstLineIdx = max 0 (bufferSize - winHeight - m_scrollOffset st);
                  lastLineIdx = max 0 (bufferSize - m_scrollOffset st)
              in drawOutputLoop (m_outputBuffer st) winHeight winWidth
                   firstLineIdx lastLineIdx firstLineIdx)))"

section \<open>Layout\<close>

text \<open>
  \<^verbatim>\<open>setupWindows\<close> returns the status and leaves the members updated. Its calls that
  only paint (\<^verbatim>\<open>clear\<close>, \<^verbatim>\<open>refresh\<close>, \<^verbatim>\<open>wbkgd\<close>, \<^verbatim>\<open>drawLayout\<close>, \<^verbatim>\<open>doupdate\<close>)
  change no member and are left out.
\<close>

definition setupWindows ::
  "newwin_fn \<Rightarrow> int \<Rightarrow> int \<Rightarrow> ConsoleUI \<Rightarrow> resize_status \<times> ConsoleUI" where
  "setupWindows newwin height width st =
     (let st1 = st\<lparr> m_termHeight := height, m_termWidth := width \<rparr> in
      if m_termHeight st1 < m_minHeight \<or> m_termWidth st1 < m_minWidth then
        (Inl TERMINAL_TOO_SMALL,
         st1\<lparr> m_outputBorderWin := None, m_outputWin := None,
              m_inputBorderWin := None, m_inputWin := None \<rparr>)
      else
        (let st2 = st1\<lparr> m_outputHeight := m_termHeight st1 - m_inputHeight st1 \<rparr>;
             st3 = st2\<lparr> m_outputBorderWin := None, m_outputWin := None,
                        m_inputBorderWin := None, m_inputWin := None \<rparr>;
             st4 = st3\<lparr> m_outputBorderWin :=
                          newwin (m_outputHeight st3) (m_termWidth st3) 0 0 \<rparr>;
             st5 = st4\<lparr> m_inputBorderWin :=
                          newwin (m_inputHeight st4) (m_termWidth st4) (m_outputHeight st4) 0 \<rparr>
         in
         if m_outputBorderWin st5 = None \<or> m_inputBorderWin st5 = None then
           (Inl TERMINAL_TOO_SMALL, st5)
         else
           (let outputInnerH = (if m_outputHeight st5 > 2 then m_outputHeight st5 - 2 else 0);
                outputInnerW = (if m_termWidth st5 > 2 then m_termWidth st5 - 2 else 0);
                inputInnerH = (if m_inputHeight st5 > 2 then m_inputHeight st5 - 2 else 0);
                inputInnerW = (if m_termWidth st5 > 2 then m_termWidth st5 - 2 else 0);
                st6 = st5\<lparr> m_outputWin := newwin outputInnerH outputInnerW 1 1 \<rparr>;
                st7 = st6\<lparr> m_inputWin :=
                             newwin inputInnerH inputInnerW (m_outputHeight st6 + 1) 1 \<rparr>
            in
            if m_outputWin st7 = None \<or> m_inputWin st7 = None then
              (Inl TERMINAL_TOO_SMALL, st7)
            else (Inr (), st7))))"

text \<open>\<^verbatim>\<open>handleResize\<close>; \<open>scr\<close> is what \<^verbatim>\<open>getmaxyx(stdscr, h, w)\<close> reads.\<close>

definition handleResize :: "newwin_fn \<Rightarrow> int \<times> int \<Rightarrow> ConsoleUI \<Rightarrow> ConsoleUI" where
  "handleResize newwin scr st =
     (let h = fst scr; w = snd scr;
          wasTooSmall = \<not> has_value (m_resizeStatus st);
          r = setupWindows newwin h w st;
          st1 = (snd r)\<lparr> m_resizeStatus := fst r \<rparr>
      in if wasTooSmall \<and> has_value (m_resizeStatus st1)
         then addOutputMessage ''Terminal resized to usable dimensions.'' st1
         else st1)"

section \<open>Commands\<close>

definition stop :: "ConsoleUI \<Rightarrow> ConsoleUI" where
  "stop st = st\<lparr> m_isRunning := False \<rparr>"

definition processCommand :: "string \<Rightarrow> ConsoleUI \<Rightarrow> ConsoleUI" where
  "processCommand command st =
     (if command = ''exit'' then stop st
      else if command = ''clear'' then st\<lparr> m_outputBuffer := [], m_scrollOffset := 0 \<rparr>
      else if command = ''help'' then
        addOutputMessage ''Commands: exit, clear, help. Scroll: PgUp/PgDn'' st
      else addOutputMessage (''Unknown: '' @ [CHR 0x27] @ command @ [CHR 0x27]) st)"

section \<open>Input handling\<close>

text \<open>
  \<^verbatim>\<open>std::string::erase(pos, 1)\<close> and \<^verbatim>\<open>insert(pos, 1, c)\<close>; the \<^verbatim>\<open>int\<close> position is
  converted to \<^verbatim>\<open>size_t\<close>, so a negative one is beyond every length.
\<close>

definition str_erase :: "string \<Rightarrow> int \<Rightarrow> error + string" where
  "str_erase s pos =
     (if 0 \<le> pos \<and> pos \<le> int (length s)
      then Inr (take (nat pos) s @ drop (nat pos + 1) s)
      else Inl std_out_of_range)"

definition str_insert :: "string \<Rightarrow> int \<Rightarrow> char \<Rightarrow> error + string" where
  "str_insert s pos c =
     (if 0 \<le> pos \<and> pos \<le> int (length s)
      then Inr (take (nat pos) s @ [c] @ drop (nat pos) s)
      else Inl std_out_of_range)"

text \<open>
  The value a 32-bit two's complement \<^verbatim>\<open>int\<close> holds after an addition or subtraction
  whose exact result is \<open>x\<close>.
\<close>

definition int32 :: "int \<Rightarrow> int" where
  "int32 x = (x + 2147483648) mod 4294967296 - 2147483648"

text \<open>
  One call of \<^verbatim>\<open>handleInput\<close> with \<open>ch\<close> the key that \<^verbatim>\<open>wgetch\<close> returns. The chain of
  tests follows the \<^verbatim>\<open>switch\<close>, case by case; \<^verbatim>\<open>beep\<close> changes no member.
\<close>

definition handleInput ::
  "newwin_fn \<Rightarrow> int \<times> int \<Rightarrow> key \<Rightarrow> ConsoleUI \<Rightarrow> error + ConsoleUI" where
  "handleInput newwin scr ch st =
     (if \<not> has_value (m_resizeStatus st) \<and> ch \<noteq> KEY_RESIZE \<and> ch \<noteq> ERR then Inr st
      else if ch = ERR then Inr st
      else if ch = KEY_RESIZE then Inr (handleResize newwin scr st)
      else if ch = KEY_BACKSPACE \<or> ch = Code 127 \<or> ch = Code 8 then
        (if m_cursorPos st > 0 then
           (case str_erase (m_inputBuffer st) (m_cursorPos st - 1) of
              Inl e \<Rightarrow> Inl e
            | Inr s \<Rightarrow> Inr (st\<lparr> m_inputBuffer := s, m_cursorPos := m_cursorPos st - 1 \<rparr>))
         else Inr st)
      else if ch = KEY_DC then
        (if m_cursorPos st < int (length (m_inputBuffer st)) then
           (case str_erase (m_inputBuffer st) (m_cursorPos st) of
              Inl e \<Rightarrow> Inl e
            | Inr s \<Rightarrow> Inr (st\<lparr> m_inputBuffer := s \<rparr>))
         else Inr st)
      else if ch = KEY_LEFT then
        Inr (if m_cursorPos st > 0 then st\<lparr> m_cursorPos := m_cursorPos st - 1 \<rparr> else st)
      else if ch = KEY_RIGHT then
        Inr (if m_cursorPos st < int (length (m_inputBuffer st))
             then st\<lparr> m_cursorPos := m_cursorPos st + 1 \<rparr> else st)
      else if ch = KEY_HOME then Inr (st\<lparr> m_cursorPos := 0 \<rparr>)
      else if ch = KEY_END then Inr (st\<lparr> m_cursorPos := int (length (m_inputBuffer st)) \<rparr>)
      else if ch = KEY_UP then
        (if m_commandHistory st \<noteq> [] then
           (let idx = (if m_historyIndex st = -1 then int (length (m_commandHistory st)) - 1
                       else if m_historyIndex st > 0 then m_historyIndex st - 1
                       else m_historyIndex st)
            in case vec_at (m_commandHistory st) idx of
                 Inl e \<Rightarrow> Inl e
               | Inr s \<Rightarrow> Inr (st\<lparr> m_historyIndex := idx, m_inputBuffer := s,
                                   m_cursorPos := int (length s) \<rparr>))
         else Inr st)
      else if ch = KEY_DOWN then
        (if m_historyIndex st \<noteq> -1 then
           (if m_historyIndex st < int (length (m_commandHistory st)) - 1 then
              (let idx = m_historyIndex st + 1
               in case vec_at (m_commandHistory st) idx of
                    Inl e \<Rightarrow> Inl e
                  | Inr s \<Rightarrow> Inr (st\<lparr> m_historyIndex := idx, m_inputBuffer := s,
                                      m_cursorPos := int (length s) \<rparr>))
            else Inr (st\<lparr> m_historyIndex := -1, m_inputBuffer := [], m_cursorPos := 0 \<rparr>))
         else Inr st)
      else if ch = KEY_ENTER \<or> ch = Code 10 \<or> ch = Code 13 then
        (if has_value (m_resizeStatus st) \<and> m_inputBuffer st \<noteq> [] then
           (let st1 = addOutputMessage (''> '' @ m_inputBuffer st) st;
                st2 = processCommand (m_inputBuffer st1) st1;
                st3 = (if m_inputBuffer st2 \<noteq> ''exit'' \<and>
                          (m_commandHistory st2 = [] \<or>
                           last (m_commandHistory st2) \<noteq> m_inputBuffer st2)
                       then st2\<lparr> m_commandHistory :=
                                   m_commandHistory st2 @ [m_inputBuffer st2] \<rparr>
                       else st2)
            in Inr (st3\<lparr> m_inputBuffer := [], m_cursorPos := 0,
                         m_historyIndex := -1, m_scrollOffset := 0 \<rparr>))
         else Inr st)
      else if ch = KEY_PPAGE then
        (case m_outputWin st of
           Some win \<Rightarrow>
             (if has_value (m_resizeStatus st) then
                (let wh = maxy win;
                     bs = int (length (m_outputBuffer st));
                     ms = max 0 (int32 (bs - wh))
                 in Inr (st\<lparr> m_scrollOffset := min ms (int32 (m_scrollOffset st + wh)) \<rparr>))
              else Inr st)
         | None \<Rightarrow> Inr st)
      else if ch = KEY_NPAGE then
        (case m_outputWin st of
           Some win \<Rightarrow>
             (if has_value (m_resizeStatus st) then
                (let wh = maxy win;
                     s = int32 (m_scrollOffset st - wh)
                 in Inr (st\<lparr> m_scrollOffset := (if s < 0 then 0 else s) \<rparr>))
              else Inr st)
         | None \<Rightarrow> Inr st)
      else
        (case ch of
           Code c \<Rightarrow>
             (if has_value (m_resizeStatus st) \<and> c \<ge> 32 \<and> c \<le> 126 then
                (case str_insert (m_inputBuffer st) (m_cursorPos st) (char_of c) of
                   Inl e \<Rightarrow> Inl e
                 | Inr s \<Rightarrow> Inr (st\<lparr> m_inputBuffer := s, m_cursorPos := m_cursorPos st + 1 \<rparr>))
              else Inr st)
         | _ \<Rightarrow> Inr st))"

section \<open>Start-up and the loop\<close>

text \<open>
  \<^verbatim>\<open>create\<close>: the three flags are the answers of \<^verbatim>\<open>initscr\<close>, \<^verbatim>\<open>has_colors\<close> and
  \<^verbatim>\<open>start_color\<close>; \<open>scr\<close> is the size of \<^verbatim>\<open>stdscr\<close>. \<^verbatim>\<open>initializeNcurses\<close> returns
  true.
\<close>

definition initializeNcurses :: "ConsoleUI \<Rightarrow> bool" where
  "initializeNcurses ui = True"

definition create ::
  "bool \<Rightarrow> bool \<Rightarrow> bool \<Rightarrow> newwin_fn \<Rightarrow> int \<times> int \<Rightarrow> InitError + ConsoleUI" where
  "create initscr_ok has_colors start_color_ok newwin scr =
     (if \<not> initscr_ok then Inl NCURSES_INIT_FAILED
      else if \<not> has_colors then Inl COLOR_SUPPORT_MISSING
      else if \<not> start_color_ok then Inl CANNOT_CHANGE_COLOR
      else
        (let height = fst scr; width = snd scr;
             ui = ConsoleUI_ctor height width
         in if \<not> initializeNcurses ui then Inl NCURSES_INIT_FAILED
            else (let r = setupWindows newwin height width ui
                  in Inr ((snd r)\<lparr> m_resizeStatus := fst r \<rparr>))))"

text \<open>
  The loop of \<^verbatim>\<open>run\<close> over the polls of \<^verbatim>\<open>wgetch\<close> given as a list: each entry is the
  key returned and the size of \<^verbatim>\<open>stdscr\<close> at that moment. The loop ends when
  \<open>m_isRunning\<close> is false; the list ends the observation. Painting and the 20 ms sleep
  change no member.
\<close>

fun run_loop :: "newwin_fn \<Rightarrow> (key \<times> int \<times> int) list \<Rightarrow> ConsoleUI \<Rightarrow> error + ConsoleUI" where
  "run_loop newwin [] st = Inr st"
| "run_loop newwin ((ch, scr) # polls) st =
     (if m_isRunning st then
        (case handleInput newwin scr ch st of
           Inl e \<Rightarrow> Inl e
         | Inr st' \<Rightarrow> run_loop newwin polls st')
      else Inr st)"

definition run :: "newwin_fn \<Rightarrow> (key \<times> int \<times> int) list \<Rightarrow> ConsoleUI \<Rightarrow> error + ConsoleUI" where
  "run newwin polls st =
     (let st1 = st\<lparr> m_isRunning := True \<rparr>;
          st2 = (if has_value (m_resizeStatus st1)
                 then addOutputMessage
                        (''Console UI Ready. Type '' @ [CHR 0x27] @ ''help'' @ [CHR 0x27] @
                         '' or '' @ [CHR 0x27] @ ''exit'' @ [CHR 0x27] @ ''.'') st1
                 else st1)
      in run_loop newwin polls st2)"

section \<open>Concrete environments\<close>

text \<open>
  A \<^verbatim>\<open>newwin\<close> that succeeds for every positive size of at most 65535 rows (a terminal
  reports its rows in 16 bits) and gives the window that size.
\<close>

definition newwin_ok :: newwin_fn where
  "newwin_ok nlines ncols begin_y begin_x =
     (if nlines \<le> 0 \<or> ncols \<le> 0 \<or> nlines > 65535 then None
      else Some \<lparr> maxy = nlines, maxx = ncols, begy = begin_y, begx = begin_x \<rparr>)"

text \<open>A \<^verbatim>\<open>newwin\<close> that fails exactly for the windows starting at row \<open>y\<close>.\<close>

definition newwin_fail_at :: "int \<Rightarrow> newwin_fn" where
  "newwin_fail_at y nlines ncols begin_y begin_x =
     (if begin_y = y \<or> nlines \<le> 0 \<or> ncols \<le> 0 then None
      else Some \<lparr> maxy = nlines, maxx = ncols, begy = begin_y, begx = begin_x \<rparr>)"

text \<open>The same key list polled on a terminal of constant size.\<close>

fun polls_at :: "int \<times> int \<Rightarrow> key list \<Rightarrow> (key \<times> int \<times> int) list" where
  "polls_at scr [] = []"
| "polls_at scr (k # ks) = (k, scr) # polls_at scr ks"

text \<open>Lines that differ pairwise: line \<open>i\<close> is \<open>i\<close> times the letter x.\<close>

definition sample_lines :: "nat \<Rightarrow> string list" where
  "sample_lines n = map (\<lambda>i. replicate i CHR ''x'') [0..<n]"

text \<open>A ten-line scrollback seen through a viewport of four rows, at offset \<open>s\<close>.\<close>

definition slice_demo :: "int \<Rightarrow> ConsoleUI" where
  "slice_demo s =
     (ConsoleUI_ctor 24 80)
       \<lparr> m_outputWin := Some \<lparr> maxy = 4, maxx = 78, begy = 1, begx = 1 \<rparr>,
         m_outputBuffer := [''l0'', ''l1'', ''l2'', ''l3'', ''l4'',
                            ''l5'', ''l6'', ''l7'', ''l8'', ''l9''],
         m_scrollOffset := s \<rparr>"

text \<open>A user interface whose layout is TooSmall, on a terminal of 5 rows and 20 columns.\<close>

definition too_small_ui :: ConsoleUI where
  "too_small_ui = (ConsoleUI_ctor 5 20)\<lparr> m_resizeStatus := Inl TERMINAL_TOO_SMALL \<rparr>"

text \<open>The user interface as \<^verbatim>\<open>create\<close> returns it on a terminal of 24 rows and 80 columns.\<close>

definition ready_ui :: ConsoleUI where
  "ready_ui = (case create True True True newwin_ok (24, 80) of
                 Inr ui \<Rightarrow> ui | Inl e \<Rightarrow> ConsoleUI_ctor 24 80)"

text \<open>The state after the text \<open>s\<close> has been typed on an empty line.\<close>

definition typed :: "string \<Rightarrow> ConsoleUI \<Rightarrow> ConsoleUI" where
  "typed s st = st\<lparr> m_inputBuffer := s, m_cursorPos := int (length s) \<rparr>"

text \<open>A running, Ready user interface with the History \<open>a\<close>, \<open>b\<close>, \<open>c\<close>, not browsing.\<close>

definition history_ui :: ConsoleUI where
  "history_ui = ready_ui\<lparr> m_commandHistory := [''a'', ''b'', ''c''], m_isRunning := True \<rparr>"




section \<open>Invariant of the reachable states\<close>

text \<open>
  What is assumed of a window the curses library hands out: its height is not negative and
  at most 65535, the most rows a terminal reports.
\<close>

definition newwin_sane :: "newwin_fn \<Rightarrow> bool" where
  "newwin_sane newwin =
     (\<forall>nlines ncols begin_y begin_x win.
        newwin nlines ncols begin_y begin_x = Some win \<longrightarrow>
          0 \<le> maxy win \<and> maxy win \<le> 65535)"

text \<open>
  The cursor lies inside the input line, \<open>historyIndex\<close> is -1 or an index into History,
  the scroll offset lies between 0 and 1000, the scrollback holds at most 1000 lines, the
  input height is 3 and the output surface, when present, has a height between 0 and 65535.
\<close>

definition state_inv :: "ConsoleUI \<Rightarrow> bool" where
  "state_inv st =
     (0 \<le> m_cursorPos st \<and> m_cursorPos st \<le> int (length (m_inputBuffer st)) \<and>
      (m_historyIndex st = -1 \<or>
       (0 \<le> m_historyIndex st \<and> m_historyIndex st < int (length (m_commandHistory st)))) \<and>
      0 \<le> m_scrollOffset st \<and> m_scrollOffset st \<le> 1000 \<and>
      length (m_outputBuffer st) \<le> 1000 \<and>
      m_inputHeight st = 3 \<and>
      (case m_outputWin st of
         None \<Rightarrow> True
       | Some win \<Rightarrow> 0 \<le> maxy win \<and> maxy win \<le> 65535))"

section \<open>Properties of the scrollback\<close>

lemma addOutputMessage_buffer:
  "m_outputBuffer (addOutputMessage m st) =
     drop (Suc (length (m_outputBuffer st)) - MAX_BUFFER_SIZE) (m_outputBuffer st @ [m])"
  by (simp add: addOutputMessage_def Let_def)

lemma addOutputMessage_length_le:
  "length (m_outputBuffer (addOutputMessage m st)) \<le> MAX_BUFFER_SIZE"
  by (simp add: addOutputMessage_buffer)

lemma addOutputMessages_snoc:
  "addOutputMessages (ms @ [m]) st = addOutputMessage m (addOutputMessages ms st)"
  by (induction ms arbitrary: st) simp_all

lemma addOutputMessages_buffer:
  "ms \<noteq> [] \<Longrightarrow>
   m_outputBuffer (addOutputMessages ms st) =
     drop (length (m_outputBuffer st) + length ms - MAX_BUFFER_SIZE) (m_outputBuffer st @ ms)"
proof (induction ms rule: rev_induct)
  case Nil
  then show ?case by simp
next
  case (snoc m ms)
  show ?case
  proof (cases "ms = []")
    case True
    then show ?thesis by (simp add: addOutputMessage_buffer)
  next
    case False
    let ?old = "m_outputBuffer st"
    let ?n = "length ?old + length ms - MAX_BUFFER_SIZE"
    have ih: "m_outputBuffer (addOutputMessages ms st) = drop ?n (?old @ ms)"
      using snoc.IH False by simp
    have le: "?n \<le> length (?old @ ms)" by simp
    have "m_outputBuffer (addOutputMessages (ms @ [m]) st) =
            drop (Suc (length (drop ?n (?old @ ms))) - MAX_BUFFER_SIZE)
              (drop ?n (?old @ ms) @ [m])"
      by (simp only: addOutputMessages_snoc addOutputMessage_buffer ih)
    also have "drop ?n (?old @ ms) @ [m] = drop ?n ((?old @ ms) @ [m])"
      using le by simp
    also have "drop (Suc (length (drop ?n (?old @ ms))) - MAX_BUFFER_SIZE)
                 (drop ?n ((?old @ ms) @ [m])) =
               drop (Suc (length (drop ?n (?old @ ms))) - MAX_BUFFER_SIZE + ?n)
                 ((?old @ ms) @ [m])"
      by (simp only: drop_drop)
    also have "Suc (length (drop ?n (?old @ ms))) - MAX_BUFFER_SIZE + ?n =
               length ?old + length (ms @ [m]) - MAX_BUFFER_SIZE"
      by (simp add: MAX_BUFFER_SIZE_def)
    finally show ?thesis by simp
  qed
qed

text \<open>
  Claim C1. For every sequence of appends, the scrollback holds at most 1000 lines after
  each append (whatever it held before); starting from an empty scrollback, after the
  lines \<open>ms\<close> have been appended it holds the last 1000 of them in order, and once
  \<open>N = length ms\<close> exceeds 1000 it holds exactly 1000 lines, the oldest of which is
  line number \<open>N - 1000\<close> of the appended ones, counted from 0: the \<open>N - 1000\<close> oldest
  lines are the ones evicted.
\<close>

theorem scrollback_bounded_fifo:
  "(\<forall>k. 0 < k \<and> k \<le> length ms \<longrightarrow>
        length (m_outputBuffer (addOutputMessages (take k ms) st)) \<le> 1000) \<and>
   (m_outputBuffer st = [] \<longrightarrow>
      m_outputBuffer (addOutputMessages ms st) = drop (length ms - 1000) ms) \<and>
   (m_outputBuffer st = [] \<and> length ms > 1000 \<longrightarrow>
      length (m_outputBuffer (addOutputMessages ms st)) = 1000 \<and>
      hd (m_outputBuffer (addOutputMessages ms st)) = ms ! (length ms - 1000))"
proof (intro conjI allI impI)
  fix k
  assume k: "0 < k \<and> k \<le> length ms"
  then have "take k ms \<noteq> []" by auto
  then show "length (m_outputBuffer (addOutputMessages (take k ms) st)) \<le> 1000"
    by (simp add: addOutputMessages_buffer MAX_BUFFER_SIZE_def)
next
  assume e: "m_outputBuffer st = []"
  show "m_outputBuffer (addOutputMessages ms st) = drop (length ms - 1000) ms"
  proof (cases "ms = []")
    case True
    then show ?thesis using e by simp
  next
    case False
    then show ?thesis using e by (simp add: addOutputMessages_buffer MAX_BUFFER_SIZE_def)
  qed
next
  assume a: "m_outputBuffer st = [] \<and> length ms > 1000"
  then have ne: "ms \<noteq> []" by auto
  have buf: "m_outputBuffer (addOutputMessages ms st) = drop (length ms - 1000) ms"
    using a ne by (simp add: addOutputMessages_buffer MAX_BUFFER_SIZE_def)
  show "length (m_outputBuffer (addOutputMessages ms st)) = 1000"
    using a by (simp add: buf)
  show "hd (m_outputBuffer (addOutputMessages ms st)) = ms ! (length ms - 1000)"
  proof -
    have "length ms - 1000 < length ms" using a by arith
    then show ?thesis by (simp only: buf hd_drop_conv_nth)
  qed
qed

theorem scrollback_bounded_fifo_witness:
  "length (m_outputBuffer
     (addOutputMessages (sample_lines 1001) (ConsoleUI_ctor 24 80))) = 1000 \<and>
   hd (m_outputBuffer
     (addOutputMessages (sample_lines 1001) (ConsoleUI_ctor 24 80))) = ''x'' \<and>
   length (m_outputBuffer
     (addOutputMessages (take 1 (sample_lines 1001)) (ConsoleUI_ctor 24 80))) \<le> 1000"
proof -
  have e: "m_outputBuffer (ConsoleUI_ctor 24 80) = []"
    by (simp add: ConsoleUI_ctor_def)
  have n: "length (sample_lines 1001) = 1001"
    by (simp add: sample_lines_def)
  have x: "sample_lines 1001 ! 1 = ''x''"
    by (simp add: sample_lines_def)
  have g: "1000 < length (sample_lines 1001)"
    by (simp add: n)
  have k: "0 < (1::nat) \<and> 1 \<le> length (sample_lines 1001)"
    by (simp add: n)
  note t = scrollback_bounded_fifo [of "sample_lines 1001" "ConsoleUI_ctor 24 80"]
  have A: "length (m_outputBuffer
             (addOutputMessages (take 1 (sample_lines 1001)) (ConsoleUI_ctor 24 80))) \<le> 1000"
    using t [THEN conjunct1, rule_format, OF k] .
  have B: "length (m_outputBuffer
             (addOutputMessages (sample_lines 1001) (ConsoleUI_ctor 24 80))) = 1000 \<and>
           hd (m_outputBuffer
             (addOutputMessages (sample_lines 1001) (ConsoleUI_ctor 24 80))) =
             sample_lines 1001 ! (length (sample_lines 1001) - 1000)"
    using t [THEN conjunct2, THEN conjunct2, rule_format, OF conjI [OF e g]] .
  have "sample_lines 1001 ! (length (sample_lines 1001) - 1000) = ''x''"
    using x by (simp add: n)
  with A B show ?thesis by simp
qed

section \<open>Properties of the visible slice\<close>

lemma drawOutputLoop_upto:
  "0 \<le> firstLineIdx \<Longrightarrow> firstLineIdx \<le> i \<Longrightarrow> lastLineIdx \<le> int (length buf) \<Longrightarrow>
   drawOutputLoop buf winHeight winWidth firstLineIdx lastLineIdx i =
     Inr (map (\<lambda>j. Mvwaddnstr (j - firstLineIdx) 0 (buf ! nat j) winWidth)
            [i..min lastLineIdx (firstLineIdx + winHeight) - 1])"
proof (induction buf winHeight winWidth firstLineIdx lastLineIdx i rule: drawOutputLoop.induct)
  case (1 buf winHeight winWidth firstLineIdx lastLineIdx i)
  show ?case
  proof (cases "i < lastLineIdx \<and> i - firstLineIdx < winHeight")
    case True
    then have at: "vec_at buf i = Inr (buf ! nat i)"
      using "1.prems" by (simp add: vec_at_def)
    have ih: "drawOutputLoop buf winHeight winWidth firstLineIdx lastLineIdx (i + 1) =
        Inr (map (\<lambda>j. Mvwaddnstr (j - firstLineIdx) 0 (buf ! nat j) winWidth)
               [i + 1..min lastLineIdx (firstLineIdx + winHeight) - 1])"
      using "1.IH" [OF _ refl _ at] True "1.prems" by simp
    have le: "i \<le> min lastLineIdx (firstLineIdx + winHeight) - 1"
      using True by simp
    show ?thesis
      using True at ih
      by (subst drawOutputLoop.simps) (simp add: upto_rec1 [OF le])
  next
    case False
    then have "min lastLineIdx (firstLineIdx + winHeight) - 1 < i" by auto
    then show ?thesis
      using False by (subst drawOutputLoop.simps) (auto simp: Let_def)
  qed
qed

lemma map_nth_upto:
  "0 \<le> lo \<Longrightarrow> hi \<le> int (length xs) \<Longrightarrow>
   map (\<lambda>i. xs ! nat i) [lo..hi - 1] = take (nat (hi - lo)) (drop (nat lo) xs)"
  by (rule nth_equalityI) (auto simp: nat_add_distrib)

text \<open>
  Claim C2. With an output surface of positive width and a non-negative scroll offset,
  \<^verbatim>\<open>drawOutputWindow\<close> draws exactly the buffer lines with indices from
  \<open>lo = max 0 (bufferSize - viewportHeight - scrollOffset)\<close> up to, not including,
  \<open>hi = max 0 (bufferSize - scrollOffset)\<close>, in buffer order, line \<open>i\<close> on row
  \<open>i - lo\<close>, each cut to the width of the surface; the result depends on the buffer,
  the viewport height, the width and the offset only. These are at most
  \<open>viewportHeight\<close> lines and every index read lies inside the buffer. For the buffer
  \<open>l0 .. l9\<close> and four rows this is \<open>l6 .. l9\<close> at offset 0 and \<open>l3 .. l6\<close> at
  offset 3.
\<close>

theorem visibleSlice_drawn:
  assumes win: "m_outputWin st = Some win"
      and width: "0 < maxx win"
      and offset: "0 \<le> m_scrollOffset st"
  shows
    "(let buf = m_outputBuffer st;
          bufferSize = int (length buf);
          viewportHeight = maxy win;
          lo = max 0 (bufferSize - viewportHeight - m_scrollOffset st);
          hi = max 0 (bufferSize - m_scrollOffset st)
      in drawOutputWindow st =
           Inr (map (\<lambda>i. Mvwaddnstr (i - lo) 0 (buf ! nat i) (maxx win)) [lo..hi - 1]) \<and>
         map (\<lambda>i. buf ! nat i) [lo..hi - 1] = take (nat (hi - lo)) (drop (nat lo) buf) \<and>
         int (length [lo..hi - 1]) \<le> max 0 viewportHeight \<and>
         (\<forall>i \<in> set [lo..hi - 1]. 0 \<le> i \<and> i < bufferSize))"
proof -
  let ?buf = "m_outputBuffer st"
  let ?B = "int (length ?buf)"
  let ?V = "maxy win"
  let ?s = "m_scrollOffset st"
  let ?lo = "max 0 (?B - ?V - ?s)"
  let ?hi = "max 0 (?B - ?s)"
  have hiB: "?hi \<le> ?B" using offset by simp
  have lo0: "0 \<le> ?lo" by simp
  have draw: "drawOutputWindow st =
      Inr (map (\<lambda>i. Mvwaddnstr (i - ?lo) 0 (?buf ! nat i) (maxx win)) [?lo..?hi - 1])"
  proof (cases "?V \<le> 0")
    case True
    then have "?hi - 1 < ?lo" by auto
    then have "[?lo..?hi - 1] = []" by simp
    then show ?thesis using True win by (simp add: drawOutputWindow_def)
  next
    case False
    then have m: "min ?hi (?lo + ?V) = ?hi" by auto
    have "drawOutputWindow st =
            drawOutputLoop ?buf ?V (maxx win) ?lo ?hi ?lo"
      using False win width by (simp add: drawOutputWindow_def Let_def)
    also have "\<dots> = Inr (map (\<lambda>j. Mvwaddnstr (j - ?lo) 0 (?buf ! nat j) (maxx win))
                        [?lo..min ?hi (?lo + ?V) - 1])"
      by (rule drawOutputLoop_upto [OF lo0 order_refl hiB])
    finally show ?thesis by (simp only: m)
  qed
  have slice: "map (\<lambda>i. ?buf ! nat i) [?lo..?hi - 1] = take (nat (?hi - ?lo)) (drop (nat ?lo) ?buf)"
    by (rule map_nth_upto [OF lo0 hiB])
  have len: "int (length [?lo..?hi - 1]) \<le> max 0 ?V"
    by auto
  have rng: "\<forall>i \<in> set [?lo..?hi - 1]. 0 \<le> i \<and> i < ?B"
    using hiB by auto
  from draw slice len rng show ?thesis
    by (simp only: Let_def)
qed

theorem visibleSlice_drawn_witness:
  "drawOutputWindow (slice_demo 0) =
     Inr [Mvwaddnstr 0 0 ''l6'' 78, Mvwaddnstr 1 0 ''l7'' 78,
          Mvwaddnstr 2 0 ''l8'' 78, Mvwaddnstr 3 0 ''l9'' 78] \<and>
   drawOutputWindow (slice_demo 3) =
     Inr [Mvwaddnstr 0 0 ''l3'' 78, Mvwaddnstr 1 0 ''l4'' 78,
          Mvwaddnstr 2 0 ''l5'' 78, Mvwaddnstr 3 0 ''l6'' 78]"
proof -
  let ?win = "\<lparr> maxy = 4, maxx = 78, begy = 1, begx = 1 \<rparr>"
  have w0: "m_outputWin (slice_demo 0) = Some ?win" and w3: "m_outputWin (slice_demo 3) = Some ?win"
    by (simp_all add: slice_demo_def)
  have x: "0 < maxx ?win" by simp
  have s0: "0 \<le> m_scrollOffset (slice_demo 0)" and s3: "0 \<le> m_scrollOffset (slice_demo 3)"
    by (simp_all add: slice_demo_def)
  show ?thesis
    using visibleSlice_drawn [OF w0 x s0] visibleSlice_drawn [OF w3 x s3]
    by (simp add: Let_def slice_demo_def)
qed

section \<open>Properties of the layout\<close>

lemma has_value_simps [simp]:
  "has_value (Inr u) = True" "has_value (Inl e) = False"
  by (simp_all add: has_value_def)

lemma setupWindows_too_small:
  "height < 10 \<or> width < 40 \<Longrightarrow>
   setupWindows newwin height width st =
     (Inl TERMINAL_TOO_SMALL,
      st\<lparr> m_termHeight := height, m_termWidth := width,
          m_outputBorderWin := None, m_outputWin := None,
          m_inputBorderWin := None, m_inputWin := None \<rparr>)"
  by (simp add: setupWindows_def m_minHeight_def m_minWidth_def)

lemma setupWindows_borders_fail:
  "10 \<le> height \<Longrightarrow> 40 \<le> width \<Longrightarrow>
   newwin (height - m_inputHeight st) width 0 0 = None \<or>
   newwin (m_inputHeight st) width (height - m_inputHeight st) 0 = None \<Longrightarrow>
   setupWindows newwin height width st =
     (Inl TERMINAL_TOO_SMALL,
      st\<lparr> m_termHeight := height, m_termWidth := width,
          m_outputHeight := height - m_inputHeight st,
          m_outputWin := None, m_inputWin := None,
          m_outputBorderWin := newwin (height - m_inputHeight st) width 0 0,
          m_inputBorderWin := newwin (m_inputHeight st) width (height - m_inputHeight st) 0 \<rparr>)"
  by (simp add: setupWindows_def m_minHeight_def m_minWidth_def Let_def)

lemma setupWindows_borders_ok:
  "10 \<le> height \<Longrightarrow> 40 \<le> width \<Longrightarrow> m_inputHeight st = 3 \<Longrightarrow>
   newwin (height - 3) width 0 0 = Some ob \<Longrightarrow>
   newwin 3 width (height - 3) 0 = Some ib \<Longrightarrow>
   setupWindows newwin height width st =
     (if newwin (height - 5) (width - 2) 1 1 = None \<or>
         newwin 1 (width - 2) (height - 2) 1 = None
      then Inl TERMINAL_TOO_SMALL else Inr (),
      st\<lparr> m_termHeight := height, m_termWidth := width,
          m_outputHeight := height - 3,
          m_outputBorderWin := Some ob,
          m_inputBorderWin := Some ib,
          m_outputWin := newwin (height - 5) (width - 2) 1 1,
          m_inputWin := newwin 1 (width - 2) (height - 2) 1 \<rparr>)"
  by (simp add: setupWindows_def m_minHeight_def m_minWidth_def Let_def)

lemma setupWindows_keeps:
  "m_outputBuffer (snd (setupWindows newwin height width st)) = m_outputBuffer st"
  "m_inputHeight (snd (setupWindows newwin height width st)) = m_inputHeight st"
  "m_scrollOffset (snd (setupWindows newwin height width st)) = m_scrollOffset st"
  "m_inputBuffer (snd (setupWindows newwin height width st)) = m_inputBuffer st"
  "m_cursorPos (snd (setupWindows newwin height width st)) = m_cursorPos st"
  "m_commandHistory (snd (setupWindows newwin height width st)) = m_commandHistory st"
  "m_historyIndex (snd (setupWindows newwin height width st)) = m_historyIndex st"
  "m_isRunning (snd (setupWindows newwin height width st)) = m_isRunning st"
  by (simp_all add: setupWindows_def Let_def)

text \<open>
  Claim C3. With the input height at its fixed value 3, \<^verbatim>\<open>setupWindows(height, width)\<close>
  returns TooSmall and leaves all four surfaces released whenever \<open>height < 10\<close> or
  \<open>width < 40\<close>. Otherwise, when the four allocations succeed, it returns Ready with
  \<open>inputHeight = 3\<close> and \<open>outputHeight = height - 3\<close>, so that the two heights add up to
  \<open>height\<close>, and holds the four surfaces just allocated; when any of the four
  allocations fails it returns TooSmall.
\<close>

theorem computeLayout_outcome:
  assumes ih: "m_inputHeight st = 3"
  shows
    "(height < 10 \<or> width < 40 \<longrightarrow>
        fst (setupWindows newwin height width st) = Inl TERMINAL_TOO_SMALL \<and>
        m_outputBorderWin (snd (setupWindows newwin height width st)) = None \<and>
        m_outputWin (snd (setupWindows newwin height width st)) = None \<and>
        m_inputBorderWin (snd (setupWindows newwin height width st)) = None \<and>
        m_inputWin (snd (setupWindows newwin height width st)) = None) \<and>
     (10 \<le> height \<and> 40 \<le> width \<and>
      newwin (height - 3) width 0 0 \<noteq> None \<and>
      newwin 3 width (height - 3) 0 \<noteq> None \<and>
      newwin (height - 5) (width - 2) 1 1 \<noteq> None \<and>
      newwin 1 (width - 2) (height - 2) 1 \<noteq> None \<longrightarrow>
        fst (setupWindows newwin height width st) = Inr () \<and>
        m_inputHeight (snd (setupWindows newwin height width st)) = 3 \<and>
        m_outputHeight (snd (setupWindows newwin height width st)) = height - 3 \<and>
        m_outputHeight (snd (setupWindows newwin height width st)) +
          m_inputHeight (snd (setupWindows newwin height width st)) = height \<and>
        m_outputBorderWin (snd (setupWindows newwin height width st)) =
          newwin (height - 3) width 0 0 \<and>
        m_inputBorderWin (snd (setupWindows newwin height width st)) =
          newwin 3 width (height - 3) 0 \<and>
        m_outputWin (snd (setupWindows newwin height width st)) =
          newwin (height - 5) (width - 2) 1 1 \<and>
        m_inputWin (snd (setupWindows newwin height width st)) =
          newwin 1 (width - 2) (height - 2) 1) \<and>
     (10 \<le> height \<and> 40 \<le> width \<and>
      (newwin (height - 3) width 0 0 = None \<or>
       newwin 3 width (height - 3) 0 = None \<or>
       newwin (height - 5) (width - 2) 1 1 = None \<or>
       newwin 1 (width - 2) (height - 2) 1 = None) \<longrightarrow>
        fst (setupWindows newwin height width st) = Inl TERMINAL_TOO_SMALL)"
proof (intro conjI impI)
  assume "height < 10 \<or> width < 40"
  note r = setupWindows_too_small [OF this, of newwin st]
  show "fst (setupWindows newwin height width st) = Inl TERMINAL_TOO_SMALL"
    and "m_outputBorderWin (snd (setupWindows newwin height width st)) = None"
    and "m_outputWin (snd (setupWindows newwin height width st)) = None"
    and "m_inputBorderWin (snd (setupWindows newwin height width st)) = None"
    and "m_inputWin (snd (setupWindows newwin height width st)) = None"
    by (simp_all add: r)
next
  assume a: "10 \<le> height \<and> 40 \<le> width \<and>
      newwin (height - 3) width 0 0 \<noteq> None \<and>
      newwin 3 width (height - 3) 0 \<noteq> None \<and>
      newwin (height - 5) (width - 2) 1 1 \<noteq> None \<and>
      newwin 1 (width - 2) (height - 2) 1 \<noteq> None"
  then obtain ob ib where ob: "newwin (height - 3) width 0 0 = Some ob"
    and ib: "newwin 3 width (height - 3) 0 = Some ib" by auto
  from a have h: "10 \<le> height" and w: "40 \<le> width" by simp_all
  note r = setupWindows_borders_ok [where newwin = newwin and st = st, OF h w ih ob ib]
  show "fst (setupWindows newwin height width st) = Inr ()"
    and "m_inputHeight (snd (setupWindows newwin height width st)) = 3"
    and "m_outputHeight (snd (setupWindows newwin height width st)) = height - 3"
    and "m_outputHeight (snd (setupWindows newwin height width st)) +
          m_inputHeight (snd (setupWindows newwin height width st)) = height"
    and "m_outputBorderWin (snd (setupWindows newwin height width st)) =
          newwin (height - 3) width 0 0"
    and "m_inputBorderWin (snd (setupWindows newwin height width st)) =
          newwin 3 width (height - 3) 0"
    and "m_outputWin (snd (setupWindows newwin height width st)) =
          newwin (height - 5) (width - 2) 1 1"
    and "m_inputWin (snd (setupWindows newwin height width st)) =
          newwin 1 (width - 2) (height - 2) 1"
    using a ih by (simp_all add: r ob ib)
next
  assume a: "10 \<le> height \<and> 40 \<le> width \<and>
      (newwin (height - 3) width 0 0 = None \<or>
       newwin 3 width (height - 3) 0 = None \<or>
       newwin (height - 5) (width - 2) 1 1 = None \<or>
       newwin 1 (width - 2) (height - 2) 1 = None)"
  then have h: "10 \<le> height" and w: "40 \<le> width" by simp_all
  show "fst (setupWindows newwin height width st) = Inl TERMINAL_TOO_SMALL"
  proof (cases "newwin (height - 3) width 0 0 = None \<or> newwin 3 width (height - 3) 0 = None")
    case True
    then show ?thesis
      using setupWindows_borders_fail [OF h w, of newwin st] ih by simp
  next
    case False
    then obtain ob ib where ob: "newwin (height - 3) width 0 0 = Some ob"
      and ib: "newwin 3 width (height - 3) 0 = Some ib" by auto
    from a False have "newwin (height - 5) (width - 2) 1 1 = None \<or>
       newwin 1 (width - 2) (height - 2) 1 = None" by auto
    then show ?thesis
      by (simp add: setupWindows_borders_ok [where newwin = newwin and st = st, OF h w ih ob ib])
  qed
qed

theorem computeLayout_outcome_witness:
  "fst (setupWindows newwin_ok 24 80 (ConsoleUI_ctor 24 80)) = Inr () \<and>
   m_outputHeight (snd (setupWindows newwin_ok 24 80 (ConsoleUI_ctor 24 80))) = 21 \<and>
   m_inputHeight (snd (setupWindows newwin_ok 24 80 (ConsoleUI_ctor 24 80))) = 3 \<and>
   fst (setupWindows newwin_ok 5 20 (ConsoleUI_ctor 24 80)) = Inl TERMINAL_TOO_SMALL \<and>
   m_outputWin (snd (setupWindows newwin_ok 5 20 (ConsoleUI_ctor 24 80))) = None \<and>
   fst (setupWindows (newwin_fail_at 22) 24 80 (ConsoleUI_ctor 24 80)) = Inl TERMINAL_TOO_SMALL"
proof -
  have ih: "m_inputHeight (ConsoleUI_ctor 24 80) = 3"
    by (simp add: ConsoleUI_ctor_def)
  show ?thesis
    using computeLayout_outcome [OF ih, of 24 80 newwin_ok]
      computeLayout_outcome [OF ih, of 5 20 newwin_ok]
      computeLayout_outcome [OF ih, of 24 80 "newwin_fail_at 22"]
    by (simp add: newwin_ok_def newwin_fail_at_def)
qed


text \<open>
  Claim C6 says that after every layout operation the four surfaces are all valid or all
  absent. Evaluated on a terminal of 24 rows and 80 columns where the allocation of the
  input border fails: \<^verbatim>\<open>setupWindows\<close> returns TooSmall at its first early return and
  the output border stays allocated while the other three surfaces are absent. The branch
  for a terminal below the minimum resets all four surfaces before it returns; the two
  returns after a failed allocation do not.
\<close>

theorem setupWindows_partial_surfaces:
  "fst (setupWindows (newwin_fail_at 21) 24 80 (ConsoleUI_ctor 24 80)) = Inl TERMINAL_TOO_SMALL \<and>
   m_outputBorderWin (snd (setupWindows (newwin_fail_at 21) 24 80 (ConsoleUI_ctor 24 80))) =
     Some \<lparr> maxy = 21, maxx = 80, begy = 0, begx = 0 \<rparr> \<and>
   m_inputBorderWin (snd (setupWindows (newwin_fail_at 21) 24 80 (ConsoleUI_ctor 24 80))) = None \<and>
   m_outputWin (snd (setupWindows (newwin_fail_at 21) 24 80 (ConsoleUI_ctor 24 80))) = None \<and>
   m_inputWin (snd (setupWindows (newwin_fail_at 21) 24 80 (ConsoleUI_ctor 24 80))) = None"
proof -
  have "newwin_fail_at 21 (24 - m_inputHeight (ConsoleUI_ctor 24 80)) 80 0 0 = None \<or>
        newwin_fail_at 21 (m_inputHeight (ConsoleUI_ctor 24 80)) 80
          (24 - m_inputHeight (ConsoleUI_ctor 24 80)) 0 = None"
    by (simp add: newwin_fail_at_def ConsoleUI_ctor_def)
  then have "setupWindows (newwin_fail_at 21) 24 80 (ConsoleUI_ctor 24 80) =
      (Inl TERMINAL_TOO_SMALL,
       (ConsoleUI_ctor 24 80)\<lparr> m_termHeight := 24, m_termWidth := 80,
          m_outputHeight := 24 - m_inputHeight (ConsoleUI_ctor 24 80),
          m_outputWin := None, m_inputWin := None,
          m_outputBorderWin :=
            newwin_fail_at 21 (24 - m_inputHeight (ConsoleUI_ctor 24 80)) 80 0 0,
          m_inputBorderWin :=
            newwin_fail_at 21 (m_inputHeight (ConsoleUI_ctor 24 80)) 80
              (24 - m_inputHeight (ConsoleUI_ctor 24 80)) 0 \<rparr>)"
    by (intro setupWindows_borders_fail) simp_all
  then show ?thesis
    by (simp add: newwin_fail_at_def ConsoleUI_ctor_def)
qed

section \<open>Properties of the resize handling\<close>

lemma handleResize_buffer:
  "m_outputBuffer (handleResize newwin (h, w) st) =
     (if \<not> has_value (m_resizeStatus st) \<and> has_value (fst (setupWindows newwin h w st))
      then drop (Suc (length (m_outputBuffer st)) - MAX_BUFFER_SIZE)
             (m_outputBuffer st @ [''Terminal resized to usable dimensions.''])
      else m_outputBuffer st)"
  by (simp add: handleResize_def Let_def addOutputMessage_buffer setupWindows_keeps)

lemma handleResize_status:
  "m_resizeStatus (handleResize newwin (h, w) st) = fst (setupWindows newwin h w st)"
  by (simp add: handleResize_def Let_def addOutputMessage_def)

lemma handleInput_resize:
  "handleInput newwin scr KEY_RESIZE st = Inr (handleResize newwin scr st)"
  by (simp add: handleInput_def)

text \<open>
  Claim C9. A resize that takes the layout from TooSmall to Ready appends the notice
  \<open>Terminal resized to usable dimensions.\<close> to the scrollback once (the scrollback
  grows by that one line, under the cap of 1000), and handling the same resize again
  appends nothing. A resize handled while the layout is Ready appends nothing, and neither
  does one whose layout computation answers TooSmall. Started on a terminal of 5 rows and
  20 columns the layout is TooSmall; a resize to 24 rows and 80 columns then gives Ready
  with \<open>outputHeight = 21\<close>, \<open>inputHeight = 3\<close> and the notice as the only line, and a
  second resize event with the same size leaves that single notice.
\<close>

theorem resize_notice_once:
  "(\<not> has_value (m_resizeStatus st) \<and> has_value (fst (setupWindows newwin h w st)) \<longrightarrow>
      has_value (m_resizeStatus (handleResize newwin (h, w) st)) \<and>
      m_outputBuffer (handleResize newwin (h, w) st) =
        drop (Suc (length (m_outputBuffer st)) - 1000)
          (m_outputBuffer st @ [''Terminal resized to usable dimensions.'']) \<and>
      m_outputBuffer (handleResize newwin (h, w) (handleResize newwin (h, w) st)) =
        m_outputBuffer (handleResize newwin (h, w) st)) \<and>
   (has_value (m_resizeStatus st) \<longrightarrow>
      m_outputBuffer (handleResize newwin (h, w) st) = m_outputBuffer st) \<and>
   (\<not> has_value (fst (setupWindows newwin h w st)) \<longrightarrow>
      \<not> has_value (m_resizeStatus (handleResize newwin (h, w) st)) \<and>
      m_outputBuffer (handleResize newwin (h, w) st) = m_outputBuffer st) \<and>
   (case create True True True newwin_ok (5, 20) of
      Inl e \<Rightarrow> False
    | Inr ui0 \<Rightarrow>
        \<not> has_value (m_resizeStatus ui0) \<and>
        (case run newwin_ok [(KEY_RESIZE, 24, 80)] ui0 of
           Inl e \<Rightarrow> False
         | Inr ui \<Rightarrow>
             has_value (m_resizeStatus ui) \<and> m_outputHeight ui = 21 \<and>
             m_inputHeight ui = 3 \<and>
             m_outputBuffer ui = [''Terminal resized to usable dimensions.'']) \<and>
        (case run newwin_ok [(KEY_RESIZE, 24, 80), (KEY_RESIZE, 24, 80)] ui0 of
           Inl e \<Rightarrow> False
         | Inr ui \<Rightarrow>
             has_value (m_resizeStatus ui) \<and> m_outputHeight ui = 21 \<and>
             m_inputHeight ui = 3 \<and>
             m_outputBuffer ui = [''Terminal resized to usable dimensions.'']))"
proof (intro conjI impI)
  assume a: "\<not> has_value (m_resizeStatus st) \<and> has_value (fst (setupWindows newwin h w st))"
  then show "has_value (m_resizeStatus (handleResize newwin (h, w) st))"
    by (simp add: handleResize_status)
  from a show "m_outputBuffer (handleResize newwin (h, w) st) =
        drop (Suc (length (m_outputBuffer st)) - 1000)
          (m_outputBuffer st @ [''Terminal resized to usable dimensions.''])"
    by (simp add: handleResize_buffer MAX_BUFFER_SIZE_def)
  from a have "has_value (m_resizeStatus (handleResize newwin (h, w) st))"
    by (simp add: handleResize_status)
  then show "m_outputBuffer (handleResize newwin (h, w) (handleResize newwin (h, w) st)) =
        m_outputBuffer (handleResize newwin (h, w) st)"
    by (simp add: handleResize_buffer [of newwin h w "handleResize newwin (h, w) st"])
next
  assume "has_value (m_resizeStatus st)"
  then show "m_outputBuffer (handleResize newwin (h, w) st) = m_outputBuffer st"
    by (simp add: handleResize_buffer)
next
  assume a: "\<not> has_value (fst (setupWindows newwin h w st))"
  then show "\<not> has_value (m_resizeStatus (handleResize newwin (h, w) st))"
    by (simp add: handleResize_status)
  from a show "m_outputBuffer (handleResize newwin (h, w) st) = m_outputBuffer st"
    by (simp add: handleResize_buffer)
next
  show "case create True True True newwin_ok (5, 20) of
      Inl e \<Rightarrow> False
    | Inr ui0 \<Rightarrow>
        \<not> has_value (m_resizeStatus ui0) \<and>
        (case run newwin_ok [(KEY_RESIZE, 24, 80)] ui0 of
           Inl e \<Rightarrow> False
         | Inr ui \<Rightarrow>
             has_value (m_resizeStatus ui) \<and> m_outputHeight ui = 21 \<and>
             m_inputHeight ui = 3 \<and>
             m_outputBuffer ui = [''Terminal resized to usable dimensions.'']) \<and>
        (case run newwin_ok [(KEY_RESIZE, 24, 80), (KEY_RESIZE, 24, 80)] ui0 of
           Inl e \<Rightarrow> False
         | Inr ui \<Rightarrow>
             has_value (m_resizeStatus ui) \<and> m_outputHeight ui = 21 \<and>
             m_inputHeight ui = 3 \<and>
             m_outputBuffer ui = [''Terminal resized to usable dimensions.''])"
    by code_simp
qed

theorem resize_notice_once_witness:
  "m_outputBuffer (handleResize newwin_ok (24, 80) too_small_ui) =
     [''Terminal resized to usable dimensions.''] \<and>
   m_outputBuffer (handleResize newwin_ok (24, 80)
     (handleResize newwin_ok (24, 80) too_small_ui)) =
     [''Terminal resized to usable dimensions.''] \<and>
   m_outputBuffer (handleResize newwin_ok (24, 80) (ConsoleUI_ctor 24 80)) = [] \<and>
   m_outputBuffer (handleResize newwin_ok (5, 20) too_small_ui) = []"
proof -
  have s: "\<not> has_value (m_resizeStatus too_small_ui)"
    by (simp add: too_small_ui_def)
  have r: "has_value (fst (setupWindows newwin_ok 24 80 too_small_ui))"
    by code_simp
  have r': "\<not> has_value (fst (setupWindows newwin_ok 5 20 too_small_ui))"
    by code_simp
  have s': "has_value (m_resizeStatus (ConsoleUI_ctor 24 80))"
    by (simp add: ConsoleUI_ctor_def)
  have b: "m_outputBuffer too_small_ui = []" "m_outputBuffer (ConsoleUI_ctor 24 80) = []"
    by (simp_all add: too_small_ui_def ConsoleUI_ctor_def)
  note t1 = resize_notice_once [of too_small_ui newwin_ok 24 80, THEN conjunct1, rule_format,
      OF conjI [OF s r]]
  note t2 = resize_notice_once [of "ConsoleUI_ctor 24 80" newwin_ok 24 80, THEN conjunct2,
      THEN conjunct1, rule_format, OF s']
  note t3 = resize_notice_once [of too_small_ui newwin_ok 5 20, THEN conjunct2,
      THEN conjunct2, THEN conjunct1, rule_format, OF r']
  show ?thesis
    using t1 t2 t3 by (simp add: b)
qed

section \<open>Properties of the input handling\<close>

lemma addOutputMessage_keeps:
  "m_inputBuffer (addOutputMessage m st) = m_inputBuffer st"
  "m_commandHistory (addOutputMessage m st) = m_commandHistory st"
  "m_resizeStatus (addOutputMessage m st) = m_resizeStatus st"
  "m_scrollOffset (addOutputMessage m st) = m_scrollOffset st"
  "m_isRunning (addOutputMessage m st) = m_isRunning st"
  by (simp_all add: addOutputMessage_def Let_def)

lemma processCommand_keeps:
  "m_inputBuffer (processCommand c st) = m_inputBuffer st"
  "m_commandHistory (processCommand c st) = m_commandHistory st"
  "m_resizeStatus (processCommand c st) = m_resizeStatus st"
  by (simp_all add: processCommand_def stop_def addOutputMessage_keeps)

text \<open>The branch of the \<^verbatim>\<open>switch\<close> taken for each key, while the layout is Ready.\<close>

lemma Code_distinct:
  "Code 10 \<noteq> Code 127" "Code 10 \<noteq> Code 8" "Code 13 \<noteq> Code 127" "Code 13 \<noteq> Code 8"
  by simp_all

lemma handleInput_enter_unfold:
  assumes "has_value (m_resizeStatus st)" and "m_inputBuffer st \<noteq> []"
      and "ch = KEY_ENTER \<or> ch = Code 10 \<or> ch = Code 13"
  shows "handleInput newwin scr ch st =
     (let st1 = addOutputMessage (''> '' @ m_inputBuffer st) st;
          st2 = processCommand (m_inputBuffer st1) st1;
          st3 = (if m_inputBuffer st2 \<noteq> ''exit'' \<and>
                    (m_commandHistory st2 = [] \<or>
                     last (m_commandHistory st2) \<noteq> m_inputBuffer st2)
                 then st2\<lparr> m_commandHistory :=
                             m_commandHistory st2 @ [m_inputBuffer st2] \<rparr>
                 else st2)
      in Inr (st3\<lparr> m_inputBuffer := [], m_cursorPos := 0,
                   m_historyIndex := -1, m_scrollOffset := 0 \<rparr>))"
  using assms(3)
proof (elim disjE)
  assume "ch = KEY_ENTER"
  then show ?thesis unfolding handleInput_def using assms(1,2)
    by (simp only: key.distinct if_False if_True simp_thms)
next
  assume "ch = Code 10"
  then show ?thesis unfolding handleInput_def using assms(1,2)
    by (simp only: key.distinct Code_distinct if_False if_True simp_thms)
next
  assume "ch = Code 13"
  then show ?thesis unfolding handleInput_def using assms(1,2)
    by (simp only: key.distinct Code_distinct if_False if_True simp_thms)
qed

lemma handleInput_enter:
  assumes "has_value (m_resizeStatus st)" and "m_inputBuffer st \<noteq> []"
      and "ch = KEY_ENTER \<or> ch = Code 10 \<or> ch = Code 13"
  shows "handleInput newwin scr ch st =
     Inr ((processCommand (m_inputBuffer st)
             (addOutputMessage (''> '' @ m_inputBuffer st) st))
          \<lparr> m_commandHistory :=
               (if m_inputBuffer st = ''exit'' \<or>
                   (m_commandHistory st \<noteq> [] \<and> last (m_commandHistory st) = m_inputBuffer st)
                then m_commandHistory st
                else m_commandHistory st @ [m_inputBuffer st]),
            m_inputBuffer := [], m_cursorPos := 0,
            m_historyIndex := -1, m_scrollOffset := 0 \<rparr>)"
proof -
  let ?st2 = "processCommand (m_inputBuffer st) (addOutputMessage (''> '' @ m_inputBuffer st) st)"
  have k: "m_inputBuffer ?st2 = m_inputBuffer st" "m_commandHistory ?st2 = m_commandHistory st"
    by (simp_all only: addOutputMessage_keeps processCommand_keeps)
  have same: "?st2\<lparr> m_commandHistory := m_commandHistory st \<rparr> = ?st2"
    using k(2) by simp
  show ?thesis
  proof (cases "m_inputBuffer st = ''exit'' \<or>
                (m_commandHistory st \<noteq> [] \<and> last (m_commandHistory st) = m_inputBuffer st)")
    case True
    then have c: "\<not> (m_inputBuffer st \<noteq> ''exit'' \<and>
                    (m_commandHistory st = [] \<or>
                     last (m_commandHistory st) \<noteq> m_inputBuffer st))" by blast
    show ?thesis
      unfolding handleInput_enter_unfold [OF assms] Let_def addOutputMessage_keeps k
      by (simp only: c True if_True if_False simp_thms same)
  next
    case False
    then have c: "m_inputBuffer st \<noteq> ''exit'' \<and>
                    (m_commandHistory st = [] \<or>
                     last (m_commandHistory st) \<noteq> m_inputBuffer st)" by blast
    from False have d: "\<not> (m_commandHistory st \<noteq> [] \<and>
                    last (m_commandHistory st) = m_inputBuffer st)" by blast
    from False have e: "m_inputBuffer st \<noteq> ''exit''" by blast
    show ?thesis
      unfolding handleInput_enter_unfold [OF assms] Let_def addOutputMessage_keeps k
      by (simp only: c d e if_True if_False simp_thms)
  qed
qed

lemma handleInput_up:
  assumes "has_value (m_resizeStatus st)"
  shows "handleInput newwin scr KEY_UP st =
     (if m_commandHistory st \<noteq> [] then
        (let idx = (if m_historyIndex st = -1 then int (length (m_commandHistory st)) - 1
                    else if m_historyIndex st > 0 then m_historyIndex st - 1
                    else m_historyIndex st)
         in case vec_at (m_commandHistory st) idx of
              Inl e \<Rightarrow> Inl e
            | Inr s \<Rightarrow> Inr (st\<lparr> m_historyIndex := idx, m_inputBuffer := s,
                                m_cursorPos := int (length s) \<rparr>))
      else Inr st)"
  unfolding handleInput_def using assms
  by (simp only: key.distinct if_False if_True simp_thms)

lemma handleInput_down:
  assumes "has_value (m_resizeStatus st)"
  shows "handleInput newwin scr KEY_DOWN st =
     (if m_historyIndex st \<noteq> -1 then
        (if m_historyIndex st < int (length (m_commandHistory st)) - 1 then
           (let idx = m_historyIndex st + 1
            in case vec_at (m_commandHistory st) idx of
                 Inl e \<Rightarrow> Inl e
               | Inr s \<Rightarrow> Inr (st\<lparr> m_historyIndex := idx, m_inputBuffer := s,
                                   m_cursorPos := int (length s) \<rparr>))
         else Inr (st\<lparr> m_historyIndex := -1, m_inputBuffer := [], m_cursorPos := 0 \<rparr>))
      else Inr st)"
  unfolding handleInput_def using assms
  by (simp only: key.distinct if_False if_True simp_thms)

lemma handleInput_ppage:
  assumes "has_value (m_resizeStatus st)" and "m_outputWin st = Some win"
  shows "handleInput newwin scr KEY_PPAGE st =
     Inr (st\<lparr> m_scrollOffset :=
               min (max 0 (int32 (int (length (m_outputBuffer st)) - maxy win)))
                   (int32 (m_scrollOffset st + maxy win)) \<rparr>)"
  unfolding handleInput_def using assms
  by (simp only: key.distinct if_False if_True simp_thms option.case Let_def)

lemma handleInput_npage:
  assumes "has_value (m_resizeStatus st)" and "m_outputWin st = Some win"
  shows "handleInput newwin scr KEY_NPAGE st =
     Inr (st\<lparr> m_scrollOffset :=
               (if int32 (m_scrollOffset st - maxy win) < 0 then 0
                else int32 (m_scrollOffset st - maxy win)) \<rparr>)"
  unfolding handleInput_def using assms
  by (simp only: key.distinct if_False if_True simp_thms option.case Let_def)

lemma handleInput_too_small:
  assumes "\<not> has_value (m_resizeStatus st)" and "ch \<noteq> KEY_RESIZE"
  shows "handleInput newwin scr ch st = Inr st"
proof (cases "ch = ERR")
  case True
  then show ?thesis unfolding handleInput_def
    by (simp only: if_False if_True simp_thms)
next
  case False
  then show ?thesis unfolding handleInput_def using assms
    by (simp only: if_False if_True simp_thms)
qed


text \<open>
  Claim C4. When enter (the key \<^verbatim>\<open>KEY_ENTER\<close>, or the codes 10 and 13) is pressed
  with a non-empty input line while the layout is Ready, the line is submitted (echoed and
  passed to \<^verbatim>\<open>processCommand\<close>) and pushed onto History unless it is the text
  \<open>exit\<close> or equals the last History entry; afterwards the line is empty, the cursor is
  0, \<open>historyIndex\<close> is -1 and the scroll offset is 0, and a History without
  \<open>exit\<close> stays without it. Typing \<open>look\<close> and enter twice leaves History as the
  single entry \<open>look\<close>; typing \<open>exit\<close> and enter leaves History empty and stops
  the loop.
\<close>

theorem enter_submits:
  assumes ready: "has_value (m_resizeStatus st)"
      and nonempty: "m_inputBuffer st \<noteq> []"
      and enter: "ch = KEY_ENTER \<or> ch = Code 10 \<or> ch = Code 13"
  shows
    "(\<exists>st'. handleInput newwin scr ch st = Inr st' \<and>
        m_commandHistory st' =
          (if m_inputBuffer st = ''exit'' \<or>
              (m_commandHistory st \<noteq> [] \<and> last (m_commandHistory st) = m_inputBuffer st)
           then m_commandHistory st
           else m_commandHistory st @ [m_inputBuffer st]) \<and>
        m_inputBuffer st' = [] \<and> m_cursorPos st' = 0 \<and>
        m_historyIndex st' = -1 \<and> m_scrollOffset st' = 0 \<and>
        m_outputBuffer st' =
          m_outputBuffer (processCommand (m_inputBuffer st)
                            (addOutputMessage (''> '' @ m_inputBuffer st) st)) \<and>
        m_isRunning st' =
          m_isRunning (processCommand (m_inputBuffer st)
                         (addOutputMessage (''> '' @ m_inputBuffer st) st)) \<and>
        (''exit'' \<notin> set (m_commandHistory st) \<longrightarrow> ''exit'' \<notin> set (m_commandHistory st'))) \<and>
     (case run newwin_ok
             (polls_at (24, 80)
                [Code 108, Code 111, Code 111, Code 107, KEY_ENTER,
                 Code 108, Code 111, Code 111, Code 107, KEY_ENTER]) ready_ui of
        Inl e \<Rightarrow> False
      | Inr ui \<Rightarrow> m_commandHistory ui = [''look'']) \<and>
     (case run newwin_ok
             (polls_at (24, 80) [Code 101, Code 120, Code 105, Code 116, Code 10]) ready_ui of
        Inl e \<Rightarrow> False
      | Inr ui \<Rightarrow> m_commandHistory ui = [] \<and> \<not> m_isRunning ui)"
proof (intro conjI)
  show "\<exists>st'. handleInput newwin scr ch st = Inr st' \<and>
        m_commandHistory st' =
          (if m_inputBuffer st = ''exit'' \<or>
              (m_commandHistory st \<noteq> [] \<and> last (m_commandHistory st) = m_inputBuffer st)
           then m_commandHistory st
           else m_commandHistory st @ [m_inputBuffer st]) \<and>
        m_inputBuffer st' = [] \<and> m_cursorPos st' = 0 \<and>
        m_historyIndex st' = -1 \<and> m_scrollOffset st' = 0 \<and>
        m_outputBuffer st' =
          m_outputBuffer (processCommand (m_inputBuffer st)
                            (addOutputMessage (''> '' @ m_inputBuffer st) st)) \<and>
        m_isRunning st' =
          m_isRunning (processCommand (m_inputBuffer st)
                         (addOutputMessage (''> '' @ m_inputBuffer st) st)) \<and>
        (''exit'' \<notin> set (m_commandHistory st) \<longrightarrow> ''exit'' \<notin> set (m_commandHistory st'))"
    unfolding handleInput_enter [OF ready nonempty enter]
    by (rule exI, rule conjI, rule refl) auto
next
  show "case run newwin_ok
             (polls_at (24, 80)
                [Code 108, Code 111, Code 111, Code 107, KEY_ENTER,
                 Code 108, Code 111, Code 111, Code 107, KEY_ENTER]) ready_ui of
        Inl e \<Rightarrow> False
      | Inr ui \<Rightarrow> m_commandHistory ui = [''look'']"
    by code_simp
next
  show "case run newwin_ok
             (polls_at (24, 80) [Code 101, Code 120, Code 105, Code 116, Code 10]) ready_ui of
        Inl e \<Rightarrow> False
      | Inr ui \<Rightarrow> m_commandHistory ui = [] \<and> \<not> m_isRunning ui"
    by code_simp
qed

theorem enter_submits_witness:
  "(\<exists>st'. handleInput newwin_ok (24, 80) KEY_ENTER
             (typed ''look'' (ready_ui\<lparr> m_commandHistory := [''look''] \<rparr>)) = Inr st' \<and>
          m_commandHistory st' = [''look''] \<and> m_inputBuffer st' = [] \<and>
          m_cursorPos st' = 0 \<and> m_historyIndex st' = -1 \<and> m_scrollOffset st' = 0) \<and>
   (\<exists>st'. handleInput newwin_ok (24, 80) (Code 13)
             (typed ''look'' (ready_ui\<lparr> m_commandHistory := [''north''] \<rparr>)) = Inr st' \<and>
          m_commandHistory st' = [''north'', ''look'']) \<and>
   (\<exists>st'. handleInput newwin_ok (24, 80) (Code 10)
             (typed ''exit'' (ready_ui\<lparr> m_commandHistory := [''north''] \<rparr>)) = Inr st' \<and>
          m_commandHistory st' = [''north''])"
proof -
  have r: "has_value (m_resizeStatus ready_ui)" by code_simp
  have a: "has_value (m_resizeStatus (typed ''look'' (ready_ui\<lparr> m_commandHistory := [''look''] \<rparr>)))"
    "has_value (m_resizeStatus (typed ''look'' (ready_ui\<lparr> m_commandHistory := [''north''] \<rparr>)))"
    "has_value (m_resizeStatus (typed ''exit'' (ready_ui\<lparr> m_commandHistory := [''north''] \<rparr>)))"
    using r by (simp_all add: typed_def)
  have b: "m_inputBuffer (typed ''look'' (ready_ui\<lparr> m_commandHistory := [''look''] \<rparr>)) \<noteq> []"
    "m_inputBuffer (typed ''look'' (ready_ui\<lparr> m_commandHistory := [''north''] \<rparr>)) \<noteq> []"
    "m_inputBuffer (typed ''exit'' (ready_ui\<lparr> m_commandHistory := [''north''] \<rparr>)) \<noteq> []"
    by (simp_all add: typed_def)
  note t1 = enter_submits [OF a(1) b(1), of KEY_ENTER newwin_ok "(24, 80)", THEN conjunct1]
  note t2 = enter_submits [OF a(2) b(2), of "Code 13" newwin_ok "(24, 80)", THEN conjunct1]
  note t3 = enter_submits [OF a(3) b(3), of "Code 10" newwin_ok "(24, 80)", THEN conjunct1]
  have c1: "\<exists>st'. handleInput newwin_ok (24, 80) KEY_ENTER
             (typed ''look'' (ready_ui\<lparr> m_commandHistory := [''look''] \<rparr>)) = Inr st' \<and>
          m_commandHistory st' = [''look''] \<and> m_inputBuffer st' = [] \<and>
          m_cursorPos st' = 0 \<and> m_historyIndex st' = -1 \<and> m_scrollOffset st' = 0"
    using t1 by (auto simp add: typed_def)
  have c2: "\<exists>st'. handleInput newwin_ok (24, 80) (Code 13)
             (typed ''look'' (ready_ui\<lparr> m_commandHistory := [''north''] \<rparr>)) = Inr st' \<and>
          m_commandHistory st' = [''north'', ''look'']"
    using t2 by (auto simp add: typed_def)
  have c3: "\<exists>st'. handleInput newwin_ok (24, 80) (Code 10)
             (typed ''exit'' (ready_ui\<lparr> m_commandHistory := [''north''] \<rparr>)) = Inr st' \<and>
          m_commandHistory st' = [''north'']"
    using t3 by (auto simp add: typed_def)
  from c1 c2 c3 show ?thesis by blast
qed


lemma vec_at_nth:
  "0 \<le> i \<Longrightarrow> i < int (length xs) \<Longrightarrow> vec_at xs i = Inr (xs ! nat i)"
  by (simp add: vec_at_def)

lemma vec_at_last:
  "xs \<noteq> [] \<Longrightarrow> vec_at xs (int (length xs) - 1) = Inr (last xs)"
  by (cases xs rule: rev_cases) (simp_all add: vec_at_def)

text \<open>
  Claim C5. While the layout is Ready and \<open>historyIndex\<close> is -1 or an index into
  History: up on an empty History changes nothing; up when not browsing jumps to the newest
  entry; up while browsing moves to the next older entry if there is one and stays on the
  oldest otherwise; in each case the entry's text is loaded and the cursor placed at its
  end. Down when not browsing changes nothing; down while browsing below the newest entry
  moves to the next newer entry and loads it; down on the newest entry leaves browsing
  (\<open>historyIndex = -1\<close>) and clears the line. No step reads outside History. With the
  History \<open>a\<close>, \<open>b\<close>, \<open>c\<close>, up three times then down once gives the text
  \<open>b\<close>, and up five times keeps the text \<open>a\<close> at index 0.
\<close>

theorem history_navigation:
  assumes ready: "has_value (m_resizeStatus st)"
      and idx: "m_historyIndex st = -1 \<or>
                (0 \<le> m_historyIndex st \<and>
                 m_historyIndex st < int (length (m_commandHistory st)))"
  shows
    "(m_commandHistory st = [] \<longrightarrow> handleInput newwin scr KEY_UP st = Inr st) \<and>
     (m_commandHistory st \<noteq> [] \<and> m_historyIndex st = -1 \<longrightarrow>
        handleInput newwin scr KEY_UP st =
          Inr (st\<lparr> m_historyIndex := int (length (m_commandHistory st)) - 1,
                    m_inputBuffer := last (m_commandHistory st),
                    m_cursorPos := int (length (last (m_commandHistory st))) \<rparr>)) \<and>
     (m_historyIndex st > 0 \<longrightarrow>
        handleInput newwin scr KEY_UP st =
          Inr (st\<lparr> m_historyIndex := m_historyIndex st - 1,
                    m_inputBuffer := m_commandHistory st ! nat (m_historyIndex st - 1),
                    m_cursorPos :=
                      int (length (m_commandHistory st ! nat (m_historyIndex st - 1))) \<rparr>)) \<and>
     (m_historyIndex st = 0 \<longrightarrow>
        handleInput newwin scr KEY_UP st =
          Inr (st\<lparr> m_historyIndex := 0,
                    m_inputBuffer := m_commandHistory st ! 0,
                    m_cursorPos := int (length (m_commandHistory st ! 0)) \<rparr>)) \<and>
     (m_historyIndex st = -1 \<longrightarrow> handleInput newwin scr KEY_DOWN st = Inr st) \<and>
     (m_historyIndex st \<noteq> -1 \<and>
      m_historyIndex st < int (length (m_commandHistory st)) - 1 \<longrightarrow>
        handleInput newwin scr KEY_DOWN st =
          Inr (st\<lparr> m_historyIndex := m_historyIndex st + 1,
                    m_inputBuffer := m_commandHistory st ! nat (m_historyIndex st + 1),
                    m_cursorPos :=
                      int (length (m_commandHistory st ! nat (m_historyIndex st + 1))) \<rparr>)) \<and>
     (m_historyIndex st \<noteq> -1 \<and>
      m_historyIndex st = int (length (m_commandHistory st)) - 1 \<longrightarrow>
        handleInput newwin scr KEY_DOWN st =
          Inr (st\<lparr> m_historyIndex := -1, m_inputBuffer := [], m_cursorPos := 0 \<rparr>)) \<and>
     (case run_loop newwin_ok (polls_at (24, 80) [KEY_UP, KEY_UP, KEY_UP, KEY_DOWN]) history_ui of
        Inl e \<Rightarrow> False
      | Inr ui \<Rightarrow> m_inputBuffer ui = ''b'' \<and> m_historyIndex ui = 1) \<and>
     (case run_loop newwin_ok (polls_at (24, 80) [KEY_UP, KEY_UP, KEY_UP, KEY_UP, KEY_UP])
             history_ui of
        Inl e \<Rightarrow> False
      | Inr ui \<Rightarrow> m_inputBuffer ui = ''a'' \<and> m_historyIndex ui = 0)"
proof (intro conjI impI)
  assume "m_commandHistory st = []"
  then show "handleInput newwin scr KEY_UP st = Inr st"
    by (simp add: handleInput_up [OF ready])
next
  assume a: "m_commandHistory st \<noteq> [] \<and> m_historyIndex st = -1"
  then have v: "vec_at (m_commandHistory st) (int (length (m_commandHistory st)) - 1) =
                  Inr (last (m_commandHistory st))"
    by (simp add: vec_at_last)
  from a show "handleInput newwin scr KEY_UP st =
          Inr (st\<lparr> m_historyIndex := int (length (m_commandHistory st)) - 1,
                    m_inputBuffer := last (m_commandHistory st),
                    m_cursorPos := int (length (last (m_commandHistory st))) \<rparr>)"
    by (simp add: handleInput_up [OF ready] v Let_def)
next
  assume a: "m_historyIndex st > 0"
  with idx have "m_commandHistory st \<noteq> []" by auto
  with a idx show "handleInput newwin scr KEY_UP st =
          Inr (st\<lparr> m_historyIndex := m_historyIndex st - 1,
                    m_inputBuffer := m_commandHistory st ! nat (m_historyIndex st - 1),
                    m_cursorPos :=
                      int (length (m_commandHistory st ! nat (m_historyIndex st - 1))) \<rparr>)"
    by (simp add: handleInput_up [OF ready] vec_at_def Let_def)
next
  assume a: "m_historyIndex st = 0"
  with idx have "m_commandHistory st \<noteq> []" by auto
  with a show "handleInput newwin scr KEY_UP st =
          Inr (st\<lparr> m_historyIndex := 0,
                    m_inputBuffer := m_commandHistory st ! 0,
                    m_cursorPos := int (length (m_commandHistory st ! 0)) \<rparr>)"
    by (simp add: handleInput_up [OF ready] vec_at_def Let_def)
next
  assume "m_historyIndex st = -1"
  then show "handleInput newwin scr KEY_DOWN st = Inr st"
    by (simp add: handleInput_down [OF ready])
next
  assume a: "m_historyIndex st \<noteq> -1 \<and>
      m_historyIndex st < int (length (m_commandHistory st)) - 1"
  with idx show "handleInput newwin scr KEY_DOWN st =
          Inr (st\<lparr> m_historyIndex := m_historyIndex st + 1,
                    m_inputBuffer := m_commandHistory st ! nat (m_historyIndex st + 1),
                    m_cursorPos :=
                      int (length (m_commandHistory st ! nat (m_historyIndex st + 1))) \<rparr>)"
    by (simp add: handleInput_down [OF ready] vec_at_def Let_def)
next
  assume a: "m_historyIndex st \<noteq> -1 \<and>
      m_historyIndex st = int (length (m_commandHistory st)) - 1"
  then have n: "m_historyIndex st \<noteq> -1" by (rule conjunct1)
  from a have "m_historyIndex st = int (length (m_commandHistory st)) - 1" by (rule conjunct2)
  then have l: "\<not> m_historyIndex st < int (length (m_commandHistory st)) - 1" by linarith
  show "handleInput newwin scr KEY_DOWN st =
          Inr (st\<lparr> m_historyIndex := -1, m_inputBuffer := [], m_cursorPos := 0 \<rparr>)"
    by (simp only: handleInput_down [OF ready] n l if_True if_False simp_thms)
next
  show "case run_loop newwin_ok (polls_at (24, 80) [KEY_UP, KEY_UP, KEY_UP, KEY_DOWN]) history_ui of
        Inl e \<Rightarrow> False
      | Inr ui \<Rightarrow> m_inputBuffer ui = ''b'' \<and> m_historyIndex ui = 1"
    by code_simp
next
  show "case run_loop newwin_ok (polls_at (24, 80) [KEY_UP, KEY_UP, KEY_UP, KEY_UP, KEY_UP])
             history_ui of
        Inl e \<Rightarrow> False
      | Inr ui \<Rightarrow> m_inputBuffer ui = ''a'' \<and> m_historyIndex ui = 0"
    by code_simp
qed

theorem history_navigation_witness:
  "handleInput newwin_ok (24, 80) KEY_UP history_ui =
     Inr (history_ui\<lparr> m_historyIndex := 2, m_inputBuffer := ''c'', m_cursorPos := 1 \<rparr>) \<and>
   handleInput newwin_ok (24, 80) KEY_UP (history_ui\<lparr> m_historyIndex := 2 \<rparr>) =
     Inr (history_ui\<lparr> m_historyIndex := 1, m_inputBuffer := ''b'', m_cursorPos := 1 \<rparr>) \<and>
   handleInput newwin_ok (24, 80) KEY_UP (history_ui\<lparr> m_historyIndex := 0 \<rparr>) =
     Inr (history_ui\<lparr> m_historyIndex := 0, m_inputBuffer := ''a'', m_cursorPos := 1 \<rparr>) \<and>
   handleInput newwin_ok (24, 80) KEY_DOWN (history_ui\<lparr> m_historyIndex := 0 \<rparr>) =
     Inr (history_ui\<lparr> m_historyIndex := 1, m_inputBuffer := ''b'', m_cursorPos := 1 \<rparr>) \<and>
   handleInput newwin_ok (24, 80) KEY_DOWN (history_ui\<lparr> m_historyIndex := 2 \<rparr>) =
     Inr (history_ui\<lparr> m_historyIndex := -1, m_inputBuffer := [], m_cursorPos := 0 \<rparr>)"
proof -
  have r: "has_value (m_resizeStatus ready_ui)" by code_simp
  have e: "m_inputBuffer ready_ui = []" "m_cursorPos ready_ui = 0" "m_historyIndex ready_ui = -1"
    by code_simp+
  have rs: "\<And>i. has_value (m_resizeStatus (history_ui\<lparr> m_historyIndex := i \<rparr>))"
    "has_value (m_resizeStatus history_ui)"
    using r by (simp_all add: history_ui_def)
  have i0: "m_historyIndex history_ui = -1 \<or>
            (0 \<le> m_historyIndex history_ui \<and>
             m_historyIndex history_ui < int (length (m_commandHistory history_ui)))"
    using e by (simp add: history_ui_def)
  have ix: "\<And>i. 0 \<le> i \<Longrightarrow> i < 3 \<Longrightarrow>
     m_historyIndex (history_ui\<lparr> m_historyIndex := i \<rparr>) = -1 \<or>
            (0 \<le> m_historyIndex (history_ui\<lparr> m_historyIndex := i \<rparr>) \<and>
             m_historyIndex (history_ui\<lparr> m_historyIndex := i \<rparr>)
               < int (length (m_commandHistory (history_ui\<lparr> m_historyIndex := i \<rparr>))))"
    by (simp add: history_ui_def)
  have "handleInput newwin_ok (24, 80) KEY_UP history_ui =
     Inr (history_ui\<lparr> m_historyIndex := 2, m_inputBuffer := ''c'', m_cursorPos := 1 \<rparr>)"
    using history_navigation [OF rs(2) i0, of newwin_ok "(24, 80)"] e
    by (simp add: history_ui_def)
  moreover have "handleInput newwin_ok (24, 80) KEY_UP (history_ui\<lparr> m_historyIndex := 2 \<rparr>) =
     Inr (history_ui\<lparr> m_historyIndex := 1, m_inputBuffer := ''b'', m_cursorPos := 1 \<rparr>)"
    using history_navigation [OF rs(1) ix, of 2 newwin_ok "(24, 80)"] e
    by (simp add: history_ui_def)
  moreover have "handleInput newwin_ok (24, 80) KEY_UP (history_ui\<lparr> m_historyIndex := 0 \<rparr>) =
     Inr (history_ui\<lparr> m_historyIndex := 0, m_inputBuffer := ''a'', m_cursorPos := 1 \<rparr>)"
    using history_navigation [OF rs(1) ix, of 0 newwin_ok "(24, 80)"] e
    by (simp add: history_ui_def)
  moreover have "handleInput newwin_ok (24, 80) KEY_DOWN (history_ui\<lparr> m_historyIndex := 0 \<rparr>) =
     Inr (history_ui\<lparr> m_historyIndex := 1, m_inputBuffer := ''b'', m_cursorPos := 1 \<rparr>)"
    using history_navigation [OF rs(1) ix, of 0 newwin_ok "(24, 80)"] e
    by (simp add: history_ui_def)
  moreover have "handleInput newwin_ok (24, 80) KEY_DOWN (history_ui\<lparr> m_historyIndex := 2 \<rparr>) =
     Inr (history_ui\<lparr> m_historyIndex := -1, m_inputBuffer := [], m_cursorPos := 0 \<rparr>)"
    using history_navigation [OF rs(1) ix, of 2 newwin_ok "(24, 80)"] e
    by (simp add: history_ui_def)
  ultimately show ?thesis by blast
qed


lemma int32_id:
  "- 2147483648 \<le> x \<Longrightarrow> x \<le> 2147483647 \<Longrightarrow> int32 x = x"
  by (simp add: int32_def mod_pos_pos_trivial)




text \<open>
  Claim C7 says that every command other than the three built-ins is delegated to the
  external command processor and that the message it returns is displayed. Evaluated on
  the command \<open>look\<close>, typed and submitted on a fresh user interface of 24 rows and 80
  columns: \<^verbatim>\<open>processCommand\<close> calls no command processor (the game engine that the
  header declares is never reached) and formats the message \<open>Unknown: 'look'\<close> itself,
  so the scrollback holds the ready line, the echo and that message.
\<close>

theorem processCommand_answers_locally:
  "processCommand ''look'' ready_ui =
     addOutputMessage (''Unknown: '' @ [CHR 0x27] @ ''look'' @ [CHR 0x27]) ready_ui \<and>
   (case run newwin_ok
           (polls_at (24, 80) [Code 108, Code 111, Code 111, Code 107, KEY_ENTER]) ready_ui of
      Inl e \<Rightarrow> False
    | Inr ui \<Rightarrow>
        m_outputBuffer ui =
          [''Console UI Ready. Type '' @ [CHR 0x27] @ ''help'' @ [CHR 0x27] @
             '' or '' @ [CHR 0x27] @ ''exit'' @ [CHR 0x27] @ ''.'',
           ''> look'',
           ''Unknown: '' @ [CHR 0x27] @ ''look'' @ [CHR 0x27]])"
  by code_simp

lemma addOutputMessage_twice_buffer:
  "m_outputBuffer (addOutputMessage b (addOutputMessage a st)) =
     drop (length (m_outputBuffer st) + 2 - 1000) (m_outputBuffer st @ [a, b])"
  using addOutputMessages_buffer [of "[a, b]" st] by (simp add: MAX_BUFFER_SIZE_def)

text \<open>
  Claim C10. For every non-empty line \<open>s\<close> submitted with enter while the layout is
  Ready, the echo line \<open>> s\<close> is appended to the scrollback first: it is the last line
  of the scrollback that \<^verbatim>\<open>processCommand\<close> receives, and every message that
  processing the command produces comes after it. So the scrollback ends with the echo and
  the usage text for \<open>help\<close>, with the echo and the \<open>Unknown\<close> message for a command
  that is no built-in, and with the echo alone for \<open>exit\<close>; \<open>clear\<close> produces no
  message and empties the scrollback, echo included.
\<close>

theorem echo_before_command_output:
  assumes ready: "has_value (m_resizeStatus st)"
      and nonempty: "m_inputBuffer st \<noteq> []"
      and enter: "ch = KEY_ENTER \<or> ch = Code 10 \<or> ch = Code 13"
  shows
    "last (m_outputBuffer (addOutputMessage (''> '' @ m_inputBuffer st) st)) =
       ''> '' @ m_inputBuffer st \<and>
     (\<exists>st'. handleInput newwin scr ch st = Inr st' \<and>
        m_outputBuffer st' =
          m_outputBuffer (processCommand (m_inputBuffer st)
                            (addOutputMessage (''> '' @ m_inputBuffer st) st)) \<and>
        (m_inputBuffer st = ''help'' \<longrightarrow>
           m_outputBuffer st' =
             drop (length (m_outputBuffer st) + 2 - 1000)
               (m_outputBuffer st @
                [''> help'', ''Commands: exit, clear, help. Scroll: PgUp/PgDn''])) \<and>
        (m_inputBuffer st = ''exit'' \<longrightarrow>
           m_outputBuffer st' =
             drop (length (m_outputBuffer st) + 1 - 1000) (m_outputBuffer st @ [''> exit''])) \<and>
        (m_inputBuffer st = ''clear'' \<longrightarrow> m_outputBuffer st' = []) \<and>
        (m_inputBuffer st \<noteq> ''exit'' \<and> m_inputBuffer st \<noteq> ''clear'' \<and>
         m_inputBuffer st \<noteq> ''help'' \<longrightarrow>
           m_outputBuffer st' =
             drop (length (m_outputBuffer st) + 2 - 1000)
               (m_outputBuffer st @
                [''> '' @ m_inputBuffer st,
                 ''Unknown: '' @ [CHR 0x27] @ m_inputBuffer st @ [CHR 0x27]])))"
proof (rule conjI)
  show "last (m_outputBuffer (addOutputMessage (''> '' @ m_inputBuffer st) st)) =
       ''> '' @ m_inputBuffer st"
    by (simp add: addOutputMessage_buffer MAX_BUFFER_SIZE_def)
next
  let ?echo = "addOutputMessage (''> '' @ m_inputBuffer st) st"
  have h: "m_inputBuffer st = ''help'' \<Longrightarrow>
      m_outputBuffer (processCommand (m_inputBuffer st) ?echo) =
        drop (length (m_outputBuffer st) + 2 - 1000)
          (m_outputBuffer st @
           [''> help'', ''Commands: exit, clear, help. Scroll: PgUp/PgDn''])"
    by (simp add: processCommand_def addOutputMessage_twice_buffer)
  have x: "m_inputBuffer st = ''exit'' \<Longrightarrow>
      m_outputBuffer (processCommand (m_inputBuffer st) ?echo) =
        drop (length (m_outputBuffer st) + 1 - 1000) (m_outputBuffer st @ [''> exit''])"
    by (simp add: processCommand_def stop_def addOutputMessage_buffer MAX_BUFFER_SIZE_def)
  have c: "m_inputBuffer st = ''clear'' \<Longrightarrow>
      m_outputBuffer (processCommand (m_inputBuffer st) ?echo) = []"
    by (simp add: processCommand_def)
  have u: "m_inputBuffer st \<noteq> ''exit'' \<and> m_inputBuffer st \<noteq> ''clear'' \<and>
         m_inputBuffer st \<noteq> ''help'' \<Longrightarrow>
      m_outputBuffer (processCommand (m_inputBuffer st) ?echo) =
        drop (length (m_outputBuffer st) + 2 - 1000)
          (m_outputBuffer st @
           [''> '' @ m_inputBuffer st,
            ''Unknown: '' @ [CHR 0x27] @ m_inputBuffer st @ [CHR 0x27]])"
    by (simp add: processCommand_def addOutputMessage_twice_buffer)
  show "\<exists>st'. handleInput newwin scr ch st = Inr st' \<and>
        m_outputBuffer st' =
          m_outputBuffer (processCommand (m_inputBuffer st) ?echo) \<and>
        (m_inputBuffer st = ''help'' \<longrightarrow>
           m_outputBuffer st' =
             drop (length (m_outputBuffer st) + 2 - 1000)
               (m_outputBuffer st @
                [''> help'', ''Commands: exit, clear, help. Scroll: PgUp/PgDn''])) \<and>
        (m_inputBuffer st = ''exit'' \<longrightarrow>
           m_outputBuffer st' =
             drop (length (m_outputBuffer st) + 1 - 1000) (m_outputBuffer st @ [''> exit''])) \<and>
        (m_inputBuffer st = ''clear'' \<longrightarrow> m_outputBuffer st' = []) \<and>
        (m_inputBuffer st \<noteq> ''exit'' \<and> m_inputBuffer st \<noteq> ''clear'' \<and>
         m_inputBuffer st \<noteq> ''help'' \<longrightarrow>
           m_outputBuffer st' =
             drop (length (m_outputBuffer st) + 2 - 1000)
               (m_outputBuffer st @
                [''> '' @ m_inputBuffer st,
                 ''Unknown: '' @ [CHR 0x27] @ m_inputBuffer st @ [CHR 0x27]]))"
    unfolding handleInput_enter [OF ready nonempty enter]
    apply (rule exI, rule conjI, rule refl)
    using h x c u by simp
qed

theorem echo_before_command_output_witness:
  "\<exists>st'. handleInput newwin_ok (24, 80) (Code 10) (typed ''help'' ready_ui) = Inr st' \<and>
      m_outputBuffer st' = [''> help'', ''Commands: exit, clear, help. Scroll: PgUp/PgDn'']"
proof -
  have r: "has_value (m_resizeStatus (typed ''help'' ready_ui))"
  proof -
    have "has_value (m_resizeStatus ready_ui)" by code_simp
    then show ?thesis by (simp add: typed_def)
  qed
  have b: "m_outputBuffer ready_ui = []" by code_simp
  have n: "m_inputBuffer (typed ''help'' ready_ui) \<noteq> []"
    by (simp add: typed_def)
  have k: "Code 10 = KEY_ENTER \<or> Code 10 = Code 10 \<or> Code 10 = Code 13" by simp
  show ?thesis
    using echo_before_command_output [OF r n k, of newwin_ok "(24, 80)", THEN conjunct2] b
    by (auto simp add: typed_def)
qed


section \<open>The invariant holds in every reachable state\<close>

text \<open>
  The hypotheses of the theorems above on the scroll offset and on \<open>historyIndex\<close> hold
  in every state the program reaches: \<open>state_inv\<close> holds after \<^verbatim>\<open>create\<close>, every
  call of \<^verbatim>\<open>handleInput\<close> returns normally and keeps it, and under it
  \<^verbatim>\<open>drawOutputWindow\<close> reads no index outside the buffer.
\<close>

lemma state_inv_ctor: "state_inv (ConsoleUI_ctor h w)"
  by (simp add: state_inv_def ConsoleUI_ctor_def)

lemma addOutputMessage_inv: "state_inv st \<Longrightarrow> state_inv (addOutputMessage m st)"
  by (simp add: state_inv_def addOutputMessage_def Let_def MAX_BUFFER_SIZE_def)

lemma processCommand_inv: "state_inv st \<Longrightarrow> state_inv (processCommand c st)"
  by (simp add: processCommand_def stop_def addOutputMessage_inv) (simp add: state_inv_def)

lemma setupWindows_outputWin:
  assumes "m_inputHeight st = 3"
  shows "m_outputWin (snd (setupWindows newwin h w st)) = None \<or>
         m_outputWin (snd (setupWindows newwin h w st)) = newwin (h - 5) (w - 2) 1 1"
proof (cases "h < 10 \<or> w < 40")
  case True
  then show ?thesis by (simp add: setupWindows_too_small)
next
  case False
  then have h: "10 \<le> h" and w: "40 \<le> w" by simp_all
  show ?thesis
  proof (cases "newwin (h - 3) w 0 0 = None \<or> newwin 3 w (h - 3) 0 = None")
    case True
    then show ?thesis
      using setupWindows_borders_fail [OF h w, of newwin st] assms by simp
  next
    case False
    then obtain ob ib where "newwin (h - 3) w 0 0 = Some ob" "newwin 3 w (h - 3) 0 = Some ib"
      by auto
    then show ?thesis
      by (simp add: setupWindows_borders_ok [where newwin = newwin and st = st, OF h w assms])
  qed
qed

lemma setupWindows_inv:
  assumes "state_inv st" and "newwin_sane newwin"
  shows "state_inv ((snd (setupWindows newwin h w st))\<lparr> m_resizeStatus := r \<rparr>)"
proof -
  from assms(1) have ih: "m_inputHeight st = 3" by (simp add: state_inv_def)
  have "case m_outputWin (snd (setupWindows newwin h w st)) of
          None \<Rightarrow> True | Some win \<Rightarrow> 0 \<le> maxy win \<and> maxy win \<le> 65535"
    using setupWindows_outputWin [OF ih, of newwin h w] assms(2)
    by (auto simp add: newwin_sane_def split: option.splits)
  then show ?thesis
    using assms(1) by (simp add: state_inv_def setupWindows_keeps)
qed

lemma handleResize_inv:
  assumes "state_inv st" and "newwin_sane newwin"
  shows "state_inv (handleResize newwin scr st)"
  using setupWindows_inv [OF assms]
  by (simp add: handleResize_def Let_def addOutputMessage_inv)

lemma handleInput_edit_keys:
  assumes r: "has_value (m_resizeStatus st)"
  shows
    "handleInput newwin scr KEY_BACKSPACE st =
       (if m_cursorPos st > 0 then
          (case str_erase (m_inputBuffer st) (m_cursorPos st - 1) of
             Inl e \<Rightarrow> Inl e
           | Inr s \<Rightarrow> Inr (st\<lparr> m_inputBuffer := s, m_cursorPos := m_cursorPos st - 1 \<rparr>))
        else Inr st)"
    "handleInput newwin scr KEY_DC st =
       (if m_cursorPos st < int (length (m_inputBuffer st)) then
          (case str_erase (m_inputBuffer st) (m_cursorPos st) of
             Inl e \<Rightarrow> Inl e
           | Inr s \<Rightarrow> Inr (st\<lparr> m_inputBuffer := s \<rparr>))
        else Inr st)"
    "handleInput newwin scr KEY_LEFT st =
       Inr (if m_cursorPos st > 0 then st\<lparr> m_cursorPos := m_cursorPos st - 1 \<rparr> else st)"
    "handleInput newwin scr KEY_RIGHT st =
       Inr (if m_cursorPos st < int (length (m_inputBuffer st))
            then st\<lparr> m_cursorPos := m_cursorPos st + 1 \<rparr> else st)"
    "handleInput newwin scr KEY_HOME st = Inr (st\<lparr> m_cursorPos := 0 \<rparr>)"
    "handleInput newwin scr KEY_END st =
       Inr (st\<lparr> m_cursorPos := int (length (m_inputBuffer st)) \<rparr>)"
  unfolding handleInput_def using r
  by (simp_all only: key.distinct if_False if_True simp_thms)

lemma handleInput_code:
  assumes r: "has_value (m_resizeStatus st)"
  shows "handleInput newwin scr (Code c) st =
     (if c = 127 \<or> c = 8 then
        (if m_cursorPos st > 0 then
           (case str_erase (m_inputBuffer st) (m_cursorPos st - 1) of
              Inl e \<Rightarrow> Inl e
            | Inr s \<Rightarrow> Inr (st\<lparr> m_inputBuffer := s, m_cursorPos := m_cursorPos st - 1 \<rparr>))
         else Inr st)
      else if c = 10 \<or> c = 13 then
        handleInput newwin scr KEY_ENTER st
      else if c \<ge> 32 \<and> c \<le> 126 then
        (case str_insert (m_inputBuffer st) (m_cursorPos st) (char_of c) of
           Inl e \<Rightarrow> Inl e
         | Inr s \<Rightarrow> Inr (st\<lparr> m_inputBuffer := s, m_cursorPos := m_cursorPos st + 1 \<rparr>))
      else Inr st)"
  unfolding handleInput_def using r
  by (simp only: key.distinct key.inject key.case if_False if_True simp_thms)

lemma str_erase_ok:
  "0 \<le> pos \<Longrightarrow> pos \<le> int (length s) \<Longrightarrow>
   str_erase s pos = Inr (take (nat pos) s @ drop (nat pos + 1) s)"
  by (simp add: str_erase_def)

lemma str_insert_ok:
  "0 \<le> pos \<Longrightarrow> pos \<le> int (length s) \<Longrightarrow>
   str_insert s pos c = Inr (take (nat pos) s @ [c] @ drop (nat pos) s)"
  by (simp add: str_insert_def)

lemma backspace_inv:
  assumes "state_inv st"
  shows "\<exists>st'. (if m_cursorPos st > 0 then
          (case str_erase (m_inputBuffer st) (m_cursorPos st - 1) of
             Inl e \<Rightarrow> Inl e
           | Inr s \<Rightarrow> Inr (st\<lparr> m_inputBuffer := s, m_cursorPos := m_cursorPos st - 1 \<rparr>))
        else Inr st) = Inr st' \<and> state_inv st'"
proof (cases "m_cursorPos st > 0")
  case True
  with assms have "0 \<le> m_cursorPos st - 1" "m_cursorPos st - 1 \<le> int (length (m_inputBuffer st))"
    by (simp_all add: state_inv_def)
  from str_erase_ok [OF this] True assms show ?thesis
    by (auto simp add: state_inv_def)
next
  case False
  with assms show ?thesis by simp
qed

lemma reset_inv:
  "state_inv st \<Longrightarrow>
   state_inv (st\<lparr> m_commandHistory := h, m_inputBuffer := [], m_cursorPos := 0,
                 m_historyIndex := -1, m_scrollOffset := 0 \<rparr>)"
  by (simp add: state_inv_def)

lemma enter_inv:
  assumes inv: "state_inv st" and r: "has_value (m_resizeStatus st)"
      and k: "ch = KEY_ENTER \<or> ch = Code 10 \<or> ch = Code 13"
  shows "\<exists>st'. handleInput newwin scr ch st = Inr st' \<and> state_inv st'"
proof (cases "m_inputBuffer st = []")
  case True
  have "handleInput newwin scr ch st = Inr st"
    using k
  proof (elim disjE)
    assume "ch = KEY_ENTER"
    then show ?thesis unfolding handleInput_def using r True
      by (simp only: key.distinct if_False if_True simp_thms)
  next
    assume "ch = Code 10"
    then show ?thesis unfolding handleInput_def using r True
      by (simp only: key.distinct Code_distinct if_False if_True simp_thms)
  next
    assume "ch = Code 13"
    then show ?thesis unfolding handleInput_def using r True
      by (simp only: key.distinct Code_distinct if_False if_True simp_thms)
  qed
  with inv show ?thesis by simp
next
  case False
  have "state_inv (processCommand (m_inputBuffer st)
                     (addOutputMessage (''> '' @ m_inputBuffer st) st))"
    by (intro processCommand_inv addOutputMessage_inv inv)
  then have "state_inv ((processCommand (m_inputBuffer st)
                     (addOutputMessage (''> '' @ m_inputBuffer st) st))
          \<lparr> m_commandHistory :=
               (if m_inputBuffer st = ''exit'' \<or>
                   (m_commandHistory st \<noteq> [] \<and> last (m_commandHistory st) = m_inputBuffer st)
                then m_commandHistory st
                else m_commandHistory st @ [m_inputBuffer st]),
            m_inputBuffer := [], m_cursorPos := 0,
            m_historyIndex := -1, m_scrollOffset := 0 \<rparr>)"
    by (rule reset_inv)
  with handleInput_enter [OF r False k, of newwin scr] show ?thesis
    by blast
qed

theorem handleInput_inv:
  assumes inv: "state_inv st" and sane: "newwin_sane newwin"
  shows "\<exists>st'. handleInput newwin scr ch st = Inr st' \<and> state_inv st'"
proof (cases "ch = KEY_RESIZE")
  case True
  then show ?thesis
    using handleResize_inv [OF inv sane] by (simp add: handleInput_resize)
next
  case nr: False
  show ?thesis
  proof (cases "has_value (m_resizeStatus st)")
    case False
    then show ?thesis using inv by (simp add: handleInput_too_small [OF False nr])
  next
    case r: True
    from inv have c: "0 \<le> m_cursorPos st" "m_cursorPos st \<le> int (length (m_inputBuffer st))"
      and i: "m_historyIndex st = -1 \<or>
              (0 \<le> m_historyIndex st \<and> m_historyIndex st < int (length (m_commandHistory st)))"
      and s: "0 \<le> m_scrollOffset st" "m_scrollOffset st \<le> 1000"
      and l: "length (m_outputBuffer st) \<le> 1000"
      by (simp_all add: state_inv_def)
    show ?thesis
    proof (cases ch)
      case ERR
      then have "handleInput newwin scr ch st = Inr st"
        unfolding handleInput_def by (simp only: key.distinct if_False if_True simp_thms)
      with inv show ?thesis by simp
    next
      case KEY_RESIZE
      with nr show ?thesis by simp
    next
      case KEY_BACKSPACE
      then show ?thesis using backspace_inv [OF inv]
        by (simp only: handleInput_edit_keys [OF r])
    next
      case KEY_DC
      show ?thesis
      proof (cases "m_cursorPos st < int (length (m_inputBuffer st))")
        case True
        from str_erase_ok [OF c] True inv show ?thesis
          unfolding KEY_DC handleInput_edit_keys [OF r]
          by (auto simp add: state_inv_def)
      next
        case False
        then show ?thesis using inv unfolding KEY_DC handleInput_edit_keys [OF r] by simp
      qed
    next
      case KEY_LEFT
      then show ?thesis using inv
        by (auto simp add: handleInput_edit_keys [OF r] state_inv_def)
    next
      case KEY_RIGHT
      then show ?thesis using inv
        by (auto simp add: handleInput_edit_keys [OF r] state_inv_def)
    next
      case KEY_HOME
      then show ?thesis using inv
        by (auto simp add: handleInput_edit_keys [OF r] state_inv_def)
    next
      case KEY_END
      then show ?thesis using inv
        by (auto simp add: handleInput_edit_keys [OF r] state_inv_def)
    next
      case KEY_UP
      show ?thesis
      proof (cases "m_commandHistory st = []")
        case True
        then show ?thesis using inv unfolding KEY_UP handleInput_up [OF r] by simp
      next
        case False
        let ?idx = "if m_historyIndex st = -1 then int (length (m_commandHistory st)) - 1
                    else if m_historyIndex st > 0 then m_historyIndex st - 1
                    else m_historyIndex st"
        from False i have b: "0 \<le> ?idx" "?idx < int (length (m_commandHistory st))"
          by (auto simp add: Suc_leI)
        from vec_at_nth [OF b] False inv b show ?thesis
          unfolding KEY_UP handleInput_up [OF r] Let_def
          by (simp add: state_inv_def)
      qed
    next
      case KEY_DOWN
      show ?thesis
      proof (cases "m_historyIndex st \<noteq> -1 \<and>
                    m_historyIndex st < int (length (m_commandHistory st)) - 1")
        case True
        with i have b: "0 \<le> m_historyIndex st + 1"
          "m_historyIndex st + 1 < int (length (m_commandHistory st))" by auto
        from vec_at_nth [OF b] True inv b show ?thesis
          unfolding KEY_DOWN handleInput_down [OF r] Let_def
          by (simp add: state_inv_def)
      next
        case False
        then show ?thesis using inv
          unfolding KEY_DOWN handleInput_down [OF r]
          by (auto simp add: state_inv_def)
      qed
    next
      case KEY_ENTER
      then show ?thesis using enter_inv [OF inv r] by simp
    next
      case KEY_PPAGE
      show ?thesis
      proof (cases "m_outputWin st")
        case None
        then have "handleInput newwin scr KEY_PPAGE st = Inr st"
          unfolding handleInput_def using r
          by (simp only: key.distinct if_False if_True simp_thms option.case)
        with inv show ?thesis unfolding KEY_PPAGE by simp
      next
        case (Some win)
        with inv have v: "0 \<le> maxy win" "maxy win \<le> 65535" by (simp_all add: state_inv_def)
        have w1: "int32 (int (length (m_outputBuffer st)) - maxy win) =
                  int (length (m_outputBuffer st)) - maxy win"
          using v l by (intro int32_id) simp_all
        have w2: "int32 (m_scrollOffset st + maxy win) = m_scrollOffset st + maxy win"
          using v s by (intro int32_id) simp_all
        from inv Some v s l show ?thesis
          unfolding KEY_PPAGE handleInput_ppage [OF r Some] w1 w2
          by (simp add: state_inv_def)
      qed
    next
      case KEY_NPAGE
      show ?thesis
      proof (cases "m_outputWin st")
        case None
        then have "handleInput newwin scr KEY_NPAGE st = Inr st"
          unfolding handleInput_def using r
          by (simp only: key.distinct if_False if_True simp_thms option.case)
        with inv show ?thesis unfolding KEY_NPAGE by simp
      next
        case (Some win)
        with inv have v: "0 \<le> maxy win" "maxy win \<le> 65535" by (simp_all add: state_inv_def)
        have w3: "int32 (m_scrollOffset st - maxy win) = m_scrollOffset st - maxy win"
          using v s by (intro int32_id) simp_all
        from inv Some v s show ?thesis
          unfolding KEY_NPAGE handleInput_npage [OF r Some] w3
          by (simp add: state_inv_def)
      qed
    next
      case (Code x)
      show ?thesis
      proof (cases "x = 127 \<or> x = 8")
        case True
        then show ?thesis using backspace_inv [OF inv]
          unfolding Code handleInput_code [OF r] by (simp only: if_True)
      next
        case nb: False
        show ?thesis
        proof (cases "x = 10 \<or> x = 13")
          case True
          then have "ch = KEY_ENTER \<or> ch = Code 10 \<or> ch = Code 13" using Code by auto
          from enter_inv [OF inv r this] show ?thesis .
        next
          case ne: False
          show ?thesis
          proof (cases "x \<ge> 32 \<and> x \<le> 126")
            case True
            from str_insert_ok [OF c] inv show ?thesis
              unfolding Code handleInput_code [OF r]
              using nb ne True by (auto simp add: state_inv_def)
          next
            case False
            then show ?thesis using inv nb ne
              unfolding Code handleInput_code [OF r] by auto
          qed
        qed
      qed
    qed
  qed
qed

lemma run_loop_inv:
  assumes "newwin_sane newwin"
  shows "state_inv st \<Longrightarrow> \<exists>st'. run_loop newwin polls st = Inr st' \<and> state_inv st'"
proof (induction polls arbitrary: st)
  case Nil
  then show ?case by simp
next
  case (Cons p polls)
  obtain ch scr where p: "p = (ch, scr)" by (cases p)
  show ?case
  proof (cases "m_isRunning st")
    case False
    with Cons.prems p show ?thesis by simp
  next
    case True
    from handleInput_inv [OF Cons.prems assms, of scr ch]
    obtain st1 where s: "handleInput newwin scr ch st = Inr st1" and i: "state_inv st1"
      by blast
    from Cons.IH [OF i] show ?thesis using True p s by simp
  qed
qed

lemma create_inv:
  assumes "newwin_sane newwin"
      and "create initscr_ok has_colors start_color_ok newwin scr = Inr ui"
  shows "state_inv ui"
  using assms(2) setupWindows_inv [OF state_inv_ctor assms(1)]
  by (auto simp add: create_def Let_def initializeNcurses_def split: if_splits)

lemma run_inv:
  assumes "newwin_sane newwin" and "state_inv st"
  shows "\<exists>st'. run newwin polls st = Inr st' \<and> state_inv st'"
proof -
  have "state_inv (st\<lparr> m_isRunning := True \<rparr>)"
    using assms(2) by (simp add: state_inv_def)
  then show ?thesis
    unfolding run_def Let_def
    by (auto intro!: run_loop_inv [OF assms(1)] addOutputMessage_inv)
qed

lemma newwin_ok_sane: "newwin_sane newwin_ok"
  by (auto simp add: newwin_sane_def newwin_ok_def split: if_splits)

lemma drawOutputWindow_inv:
  assumes "state_inv st"
  shows "\<exists>ops. drawOutputWindow st = Inr ops"
proof (cases "m_outputWin st")
  case None
  then show ?thesis by (simp add: drawOutputWindow_def)
next
  case (Some win)
  show ?thesis
  proof (cases "maxy win \<le> 0 \<or> maxx win \<le> 0")
    case True
    then show ?thesis using Some by (auto simp add: drawOutputWindow_def)
  next
    case False
    then have "0 \<le> max 0 (int (length (m_outputBuffer st)) - maxy win - m_scrollOffset st)"
      by simp
    moreover from assms have "max 0 (int (length (m_outputBuffer st)) - m_scrollOffset st)
        \<le> int (length (m_outputBuffer st))"
      by (simp add: state_inv_def)
    ultimately show ?thesis
      using Some False drawOutputLoop_upto [OF _ order_refl]
      by (simp add: drawOutputWindow_def Let_def)
  qed
qed


end
